theory Spec2Isabelle
  imports Main "HOL-Library.Word" "HOL-Library.Sublist"
begin

section \<open>JavaScript strings\<close>

text \<open>
  A JavaScript string is a sequence of UTF-16 code units; \<open>length\<close>, \<open>slice\<close> and the
  regular expressions of the sources (none carries the \<open>u\<close> flag) work on code units.
  \<open>js\<close> embeds an ASCII literal.
\<close>

type_synonym jschar = "16 word"
type_synonym jsstring = "jschar list"

definition js :: "string \<Rightarrow> jsstring" where
  "js s = map of_char s"

text \<open>\<open>Array.prototype.join\<close> on an array of strings.\<close>

fun join :: "jsstring \<Rightarrow> jsstring list \<Rightarrow> jsstring" where
  "join sep [] = []"
| "join sep [x] = x"
| "join sep (x # y # ys) = x @ sep @ join sep (y # ys)"

text \<open>The decimal rendering of a non-negative integer in a template literal.\<close>

definition digitChar :: "nat \<Rightarrow> jschar" where
  "digitChar d = of_nat (48 + d)"

fun showNat :: "nat \<Rightarrow> jsstring" where
  "showNat n = (if n < 10 then [digitChar n] else showNat (n div 10) @ [digitChar (n mod 10)])"

declare showNat.simps [simp del]

text \<open>
  The character classes of the regular expressions: \<open>\w\<close> is \<open>[A-Za-z0-9_]\<close>, and \<open>\s\<close> is
  the white space and line terminator code units of ECMAScript, which are also what
  \<open>String.prototype.trim\<close> removes.
\<close>

definition isUpper :: "jschar \<Rightarrow> bool" where
  "isUpper c = (0x41 \<le> c \<and> c \<le> 0x5A)"

definition isLower :: "jschar \<Rightarrow> bool" where
  "isLower c = (0x61 \<le> c \<and> c \<le> 0x7A)"

definition isDigit :: "jschar \<Rightarrow> bool" where
  "isDigit c = (0x30 \<le> c \<and> c \<le> 0x39)"

definition isWordChar :: "jschar \<Rightarrow> bool" where
  "isWordChar c = (isUpper c \<or> isLower c \<or> isDigit c \<or> c = 0x5F)"

definition isSpace :: "jschar \<Rightarrow> bool" where
  "isSpace c = ((0x09 \<le> c \<and> c \<le> 0x0D) \<or> c = 0x20 \<or> c = 0xA0 \<or> c = 0x1680
     \<or> (0x2000 \<le> c \<and> c \<le> 0x200A) \<or> c = 0x2028 \<or> c = 0x2029 \<or> c = 0x202F
     \<or> c = 0x205F \<or> c = 0x3000 \<or> c = 0xFEFF)"

abbreviation hyphen :: jschar where
  "hyphen \<equiv> 0x2D"

text \<open>
  \<open>String.prototype.toLowerCase\<close>. The ASCII letters are mapped as Unicode maps them.
  Of the code units beyond ASCII only two have a lower-case mapping that reaches ASCII:
  U+212A (Kelvin sign, to \<open>k\<close>) and U+0130 (to \<open>i\<close> followed by U+0307). Every other
  code unit beyond ASCII is mapped by Unicode to code units beyond ASCII that are of the
  same class for \<open>\w\<close>, \<open>\s\<close> and \<open>-\<close>; it is kept as it is here.
\<close>

definition lowerUnit :: "jschar \<Rightarrow> jsstring" where
  "lowerUnit c =
     (if isUpper c then [c + 0x20]
      else if c = 0x212A then [0x6B]
      else if c = 0x0130 then [0x69, 0x0307]
      else [c])"

definition toLowerCase :: "jsstring \<Rightarrow> jsstring" where
  "toLowerCase s = concat (map lowerUnit s)"

definition trim :: "jsstring \<Rightarrow> jsstring" where
  "trim s = rev (dropWhile isSpace (rev (dropWhile isSpace s)))"

section \<open>services/spec-manager.ts\<close>

subsection \<open>slugify\<close>

text \<open>\<open>.replace(/[^\w\s-]/g, '')\<close>\<close>

definition stripNonWord :: "jsstring \<Rightarrow> jsstring" where
  "stripNonWord s = filter (\<lambda>c. isWordChar c \<or> isSpace c \<or> c = hyphen) s"

text \<open>
  \<open>.replace(/[\s_]+/g, '-')\<close> and \<open>.replace(/-+/g, '-')\<close>: every maximal run of code units of
  the class becomes one hyphen.
\<close>

function collapseRuns :: "(jschar \<Rightarrow> bool) \<Rightarrow> jsstring \<Rightarrow> jsstring" where
  "collapseRuns p [] = []"
| "collapseRuns p (c # cs) =
     (if p c then hyphen # collapseRuns p (dropWhile p cs) else c # collapseRuns p cs)"
  by pat_completeness auto
termination
  by (relation "measure (\<lambda>(p, s). length s)") (auto simp: length_dropWhile_le le_imp_less_Suc)

definition isSpaceOrUnderscore :: "jschar \<Rightarrow> bool" where
  "isSpaceOrUnderscore c = (isSpace c \<or> c = 0x5F)"

definition isHyphen :: "jschar \<Rightarrow> bool" where
  "isHyphen c = (c = hyphen)"

text \<open>\<open>.replace(/^-+|-+$/g, '')\<close>\<close>

definition trimHyphens :: "jsstring \<Rightarrow> jsstring" where
  "trimHyphens s = rev (dropWhile isHyphen (rev (dropWhile isHyphen s)))"

definition slugify :: "jsstring \<Rightarrow> jsstring" where
  "slugify text =
     trimHyphens (collapseRuns isHyphen (collapseRuns isSpaceOrUnderscore
       (stripNonWord (trim (toLowerCase text)))))"

subsection \<open>The documents and the registry\<close>

datatype json =
    JNull
  | JBool bool
  | JNum int
  | JStr jsstring
  | JArr "json list"
  | JObj "(jsstring \<times> json) list"

text \<open>
  An object of the document is an association list in the order of \<open>Object.keys\<close>.
  A field that may be absent is an option.
\<close>

record document =
  infoTitle :: "jsstring option"
  infoDescription :: "jsstring option"
  infoVersion :: "jsstring option"
  paths :: "(jsstring \<times> (jsstring \<times> json) list) list option"
  components :: "(jsstring \<times> (jsstring \<times> json) list) list option"

datatype error = Error jsstring

text \<open>
  A \<open>SpecLoaderService\<close> that has loaded its file: the path it was made for and the
  document \<open>getSpec\<close> answers.
\<close>

record loader =
  filePath :: jsstring
  rawSpec :: document

record LoadedSpec =
  slug :: jsstring
  title :: jsstring
  description :: jsstring
  version :: jsstring
  pathCount :: nat
  loader :: loader

text \<open>\<open>Map<string, LoadedSpec>\<close>: the entries in insertion order.\<close>

type_synonym registry = "(jsstring \<times> LoadedSpec) list"

definition has :: "registry \<Rightarrow> jsstring \<Rightarrow> bool" where
  "has specs k = (k \<in> fst ` set specs)"

text \<open>\<open>x || d\<close> on a string that may be undefined: the empty string is falsy.\<close>

definition orElse :: "jsstring option \<Rightarrow> jsstring \<Rightarrow> jsstring" where
  "orElse x d = (case x of None \<Rightarrow> d | Some s \<Rightarrow> if s = [] then d else s)"

text \<open>\<open>filePath.split('/').pop()\<close>: what follows the last slash.\<close>

definition lastSegment :: "jsstring \<Rightarrow> jsstring" where
  "lastSegment p = rev (takeWhile (\<lambda>c. c \<noteq> 0x2F) (rev p))"

text \<open>\<open>.replace(/\.(json|yaml|yml)$/i, '')\<close>; without the \<open>u\<close> flag, \<open>i\<close> folds ASCII letters only.\<close>

definition lowerAscii :: "jsstring \<Rightarrow> jsstring" where
  "lowerAscii s = map (\<lambda>c. if isUpper c then c + 0x20 else c) s"

definition endsWithCI :: "jsstring \<Rightarrow> jsstring \<Rightarrow> bool" where
  "endsWithCI s suf = (length suf \<le> length s \<and> lowerAscii (drop (length s - length suf) s) = suf)"

definition stripSpecExtension :: "jsstring \<Rightarrow> jsstring" where
  "stripSpecExtension s =
     (if endsWithCI s (js ''.json'') \<or> endsWithCI s (js ''.yaml'') then take (length s - 5) s
      else if endsWithCI s (js ''.yml'') then take (length s - 4) s
      else s)"

definition fallbackFileName :: "jsstring \<Rightarrow> jsstring" where
  "fallbackFileName p = orElse (Some (stripSpecExtension (lastSegment p))) (js ''api'')"

definition specTitle :: "document \<Rightarrow> jsstring" where
  "specTitle spec = orElse (infoTitle spec) (js ''Untitled API'')"

definition specSlug :: "document \<Rightarrow> jsstring \<Rightarrow> jsstring" where
  "specSlug spec p =
     (let s = slugify (specTitle spec)
      in if s = [] then slugify (fallbackFileName p) else s)"

definition makeLoadedSpec :: "jsstring \<Rightarrow> document \<Rightarrow> LoadedSpec" where
  "makeLoadedSpec p spec =
     \<lparr> slug = specSlug spec p,
       title = specTitle spec,
       description = orElse (infoDescription spec) [],
       version = orElse (infoVersion spec) [],
       pathCount = (case paths spec of None \<Rightarrow> 0 | Some ps \<Rightarrow> length ps),
       loader = \<lparr> filePath = p, rawSpec = spec \<rparr> \<rparr>"

text \<open>
  The loop of \<open>loadSpecs\<close>. \<open>load\<close> is \<open>loader.loadSpec()\<close> followed by \<open>loader.getSpec()\<close>
  for a path: the document, or the error thrown. An error leaves the loop at once, with
  the entries set so far.
\<close>

fun loadSpecsLoop ::
  "(jsstring \<Rightarrow> error + document) \<Rightarrow> jsstring list \<Rightarrow> registry \<Rightarrow> error option \<times> registry" where
  "loadSpecsLoop load [] specs = (None, specs)"
| "loadSpecsLoop load (p # ps) specs =
     (case load p of
        Inl e \<Rightarrow> (Some e, specs)
      | Inr spec \<Rightarrow>
          (let entry = makeLoadedSpec p spec
           in if has specs (slug entry) then loadSpecsLoop load ps specs
              else loadSpecsLoop load ps (specs @ [(slug entry, entry)])))"

definition loadSpecs ::
  "(jsstring \<Rightarrow> error + document) \<Rightarrow> jsstring list \<Rightarrow> registry \<Rightarrow> error option \<times> registry" where
  "loadSpecs load ps specs =
     (case loadSpecsLoop load ps specs of
        (Some e, specs') \<Rightarrow> (Some e, specs')
      | (None, specs') \<Rightarrow>
          if length specs' = 0 then (Some (Error (js ''No specs were loaded successfully.'')), specs')
          else (None, specs'))"

definition getAllSpecs :: "registry \<Rightarrow> LoadedSpec list" where
  "getAllSpecs specs = map snd specs"

definition getSpecSlugs :: "registry \<Rightarrow> jsstring list" where
  "getSpecSlugs specs = map fst specs"

definition getLoader :: "registry \<Rightarrow> jsstring \<Rightarrow> error + loader" where
  "getLoader specs s =
     (case map_of specs s of
        None \<Rightarrow> Inl (Error (js ''Spec \"'' @ s @ js ''\" not found. Available: ''
                              @ join (js '', '') (getSpecSlugs specs)))
      | Some spec \<Rightarrow> Inr (loader spec))"

section \<open>handlers/specs-list-handler.ts\<close>

record FormattedResultItem =
  uri :: jsstring
  mimeType :: jsstring
  itemText :: jsstring
  isError :: "bool option"

definition specParts :: "LoadedSpec \<Rightarrow> jsstring list" where
  "specParts spec =
     [js ''## '' @ slug spec, js ''Title: '' @ title spec]
     @ (if description spec \<noteq> []
        then [js ''Description: ''
              @ (if length (description spec) > 200
                 then take 200 (description spec) @ js ''...''
                 else description spec)]
        else [])
     @ (if version spec \<noteq> [] then [js ''Version: '' @ version spec] else [])
     @ [js ''Paths: '' @ showNat (pathCount spec) @ js '' endpoints'']"

definition specsListHandleRequest :: "registry \<Rightarrow> FormattedResultItem list" where
  "specsListHandleRequest specs =
     [\<lparr> uri = js ''openapi://specs'',
        mimeType = js ''text/plain'',
        itemText = join (js [CHR 0x0A, CHR 0x0A])
                 (map (\<lambda>spec. join (js [CHR 0x0A]) (specParts spec)) (getAllSpecs specs)),
        isError = None \<rparr>]"

section \<open>Predicates on slugs and registries\<close>

text \<open>No two adjacent hyphens.\<close>

fun noDoubleHyphen :: "jsstring \<Rightarrow> bool" where
  "noDoubleHyphen (c # d # cs) = (\<not> (c = hyphen \<and> d = hyphen) \<and> noDoubleHyphen (d # cs))"
| "noDoubleHyphen _ = True"

text \<open>The invariant of the registry: the keys are distinct, and each is the slug of its entry.\<close>

definition keyed :: "registry \<Rightarrow> bool" where
  "keyed specs = (distinct (map fst specs) \<and> (\<forall>x \<in> set specs. fst x = slug (snd x)))"

section \<open>Sample documents\<close>

definition demoDocA :: document where
  "demoDocA = \<lparr> infoTitle = Some (js ''Demo API''), infoDescription = None,
      infoVersion = Some (js ''1.0.0''), paths = Some [], components = None \<rparr>"

definition demoDocB :: document where
  "demoDocB = \<lparr> infoTitle = Some (js ''demo_api''), infoDescription = Some (js ''second''),
      infoVersion = None, paths = None, components = None \<rparr>"

definition symbolTitleDoc :: document where
  "symbolTitleDoc = \<lparr> infoTitle = Some (js ''!!!''), infoDescription = None,
      infoVersion = None, paths = None, components = None \<rparr>"

definition demoLoad :: "jsstring \<Rightarrow> error + document" where
  "demoLoad p =
     (if p = js ''a.json'' then Inr demoDocA
      else if p = js ''b.json'' then Inr demoDocB
      else if p = js ''specs/pets.yaml'' then Inr symbolTitleDoc
      else Inl (Error (js ''ENOENT'')))"


section \<open>The URI functions of ECMAScript\<close>

text \<open>
  \<open>encodeURIComponent\<close> and \<open>decodeURIComponent\<close> as ECMAScript defines them (the abstract
  operations Encode and Decode). A string is read as UTF-16: a high surrogate followed
  by a low surrogate is one code point. Each code point outside the unreserved set is
  written as the octets of its UTF-8 form, each octet as \<open>%XX\<close> in upper-case
  hexadecimal. \<open>None\<close> is the \<open>URIError\<close> that the function throws.
\<close>

definition isUnreserved :: "jschar \<Rightarrow> bool" where
  "isUnreserved c = (isUpper c \<or> isLower c \<or> isDigit c
     \<or> c = 0x2D \<or> c = 0x5F \<or> c = 0x2E \<or> c = 0x21 \<or> c = 0x7E
     \<or> c = 0x2A \<or> c = 0x27 \<or> c = 0x28 \<or> c = 0x29)"

definition isHighSurrogate :: "jschar \<Rightarrow> bool" where
  "isHighSurrogate c = (0xD800 \<le> c \<and> c \<le> 0xDBFF)"

definition isLowSurrogate :: "jschar \<Rightarrow> bool" where
  "isLowSurrogate c = (0xDC00 \<le> c \<and> c \<le> 0xDFFF)"

definition pairCodePoint :: "jschar \<Rightarrow> jschar \<Rightarrow> nat" where
  "pairCodePoint hi lo = (unat hi - 0xD800) * 0x400 + (unat lo - 0xDC00) + 0x10000"

definition utf8 :: "nat \<Rightarrow> nat list" where
  "utf8 v =
     (if v < 0x80 then [v]
      else if v < 0x800 then [0xC0 + v div 0x40, 0x80 + v mod 0x40]
      else if v < 0x10000 then [0xE0 + v div 0x1000, 0x80 + v div 0x40 mod 0x40, 0x80 + v mod 0x40]
      else [0xF0 + v div 0x40000, 0x80 + v div 0x1000 mod 0x40,
            0x80 + v div 0x40 mod 0x40, 0x80 + v mod 0x40])"

definition hexDigit :: "nat \<Rightarrow> jschar" where
  "hexDigit d = (if d < 10 then of_nat (0x30 + d) else of_nat (0x37 + d))"

definition percentOctet :: "nat \<Rightarrow> jsstring" where
  "percentOctet b = [0x25, hexDigit (b div 16), hexDigit (b mod 16)]"

definition percentOctets :: "nat list \<Rightarrow> jsstring" where
  "percentOctets bs = concat (map percentOctet bs)"

fun encodeURIComponent :: "jsstring \<Rightarrow> jsstring option" where
  "encodeURIComponent [] = Some []"
| "encodeURIComponent [c] =
     (if isUnreserved c then Some [c]
      else if isLowSurrogate c \<or> isHighSurrogate c then None
      else Some (percentOctets (utf8 (unat c))))"
| "encodeURIComponent (c # d # ds) =
     (if isUnreserved c then map_option ((#) c) (encodeURIComponent (d # ds))
      else if isLowSurrogate c then None
      else if isHighSurrogate c then
        (if isLowSurrogate d
         then map_option ((@) (percentOctets (utf8 (pairCodePoint c d)))) (encodeURIComponent ds)
         else None)
      else map_option ((@) (percentOctets (utf8 (unat c)))) (encodeURIComponent (d # ds)))"

definition hexValue :: "jschar \<Rightarrow> nat option" where
  "hexValue c =
     (if isDigit c then Some (unat c - 0x30)
      else if 0x41 \<le> c \<and> c \<le> 0x46 then Some (unat c - 0x37)
      else if 0x61 \<le> c \<and> c \<le> 0x66 then Some (unat c - 0x57)
      else None)"

text \<open>An escape \<open>%XX\<close> at the front of a string: the octet, and what follows the escape.\<close>

fun parseEscape :: "jsstring \<Rightarrow> (nat \<times> jsstring) option" where
  "parseEscape (p # h # l # rest) =
     (if p = 0x25 then
        (case hexValue h of
           None \<Rightarrow> None
         | Some a \<Rightarrow> (case hexValue l of None \<Rightarrow> None | Some b \<Rightarrow> Some (16 * a + b, rest)))
      else None)"
| "parseEscape _ = None"

text \<open>The continuation octets of a sequence: each an escape whose two top bits are 10.\<close>

fun continuationOctets :: "nat \<Rightarrow> jsstring \<Rightarrow> (nat list \<times> jsstring) option" where
  "continuationOctets 0 s = Some ([], s)"
| "continuationOctets (Suc n) s =
     (case parseEscape s of
        None \<Rightarrow> None
      | Some (b, rest) \<Rightarrow>
          if b div 0x40 = 2
          then (case continuationOctets n rest of
                  None \<Rightarrow> None
                | Some (bs, rest') \<Rightarrow> Some (b # bs, rest'))
          else None)"

text \<open>The number of octets that the first octet of a sequence announces (its leading 1 bits).\<close>

definition leadingOnes :: "nat \<Rightarrow> nat" where
  "leadingOnes b =
     (if b < 0x80 then 0 else if b < 0xC0 then 1 else if b < 0xE0 then 2
      else if b < 0xF0 then 3 else if b < 0xF8 then 4 else 5)"

text \<open>
  The code point of a sequence of two to four octets, where the sequence is a valid
  UTF-8 encoding: not overlong, not a surrogate, at most U+10FFFF.
\<close>

definition utf8CodePoint :: "nat list \<Rightarrow> nat option" where
  "utf8CodePoint bs =
     (case bs of
        [b0, b1] \<Rightarrow>
          (let v = (b0 - 0xC0) * 0x40 + (b1 - 0x80)
           in if 0x80 \<le> v then Some v else None)
      | [b0, b1, b2] \<Rightarrow>
          (let v = (b0 - 0xE0) * 0x1000 + (b1 - 0x80) * 0x40 + (b2 - 0x80)
           in if 0x800 \<le> v \<and> \<not> (0xD800 \<le> v \<and> v \<le> 0xDFFF) then Some v else None)
      | [b0, b1, b2, b3] \<Rightarrow>
          (let v = (b0 - 0xF0) * 0x40000 + (b1 - 0x80) * 0x1000 + (b2 - 0x80) * 0x40 + (b3 - 0x80)
           in if 0x10000 \<le> v \<and> v \<le> 0x10FFFF then Some v else None)
      | _ \<Rightarrow> None)"

definition utf16 :: "nat \<Rightarrow> jsstring" where
  "utf16 v =
     (if v < 0x10000 then [of_nat v]
      else [of_nat (0xD800 + (v - 0x10000) div 0x400), of_nat (0xDC00 + (v - 0x10000) mod 0x400)])"

function decodeURIComponent :: "jsstring \<Rightarrow> jsstring option" where
  "decodeURIComponent [] = Some []"
| "decodeURIComponent (c # cs) =
     (if c \<noteq> 0x25 then map_option ((#) c) (decodeURIComponent cs)
      else
        (case parseEscape (c # cs) of
           None \<Rightarrow> None
         | Some (b, rest) \<Rightarrow>
             if b < 0x80 then map_option ((#) (of_nat b)) (decodeURIComponent rest)
             else if leadingOnes b = 1 \<or> leadingOnes b > 4 then None
             else
               (case continuationOctets (leadingOnes b - 1) rest of
                  None \<Rightarrow> None
                | Some (bs, rest') \<Rightarrow>
                    (case utf8CodePoint (b # bs) of
                       None \<Rightarrow> None
                     | Some v \<Rightarrow> map_option ((@) (utf16 v)) (decodeURIComponent rest')))))"
  by pat_completeness auto
termination
proof (relation "measure length")
  have pe: "length rest < length s" if "parseEscape s = Some (b, rest)" for s b rest
    using that by (induction s rule: parseEscape.induct) (auto split: if_splits option.splits)
  have co: "length rest \<le> length s" if "continuationOctets n s = Some (bs, rest)" for n s bs rest
    using that
  proof (induction n s arbitrary: bs rest rule: continuationOctets.induct)
    case (1 s)
    then show ?case by simp
  next
    case (2 n s)
    then show ?case
      by (fastforce split: option.splits prod.splits if_splits dest: pe)
  qed
  show "wf (measure length)" by simp
  show "(cs, c # cs) \<in> measure length" for c :: jschar and cs
    by simp
  show "(y, c # cs) \<in> measure length"
    if "parseEscape (c # cs) = Some x2" "(x, y) = x2" for c :: jschar and cs x2 x y
    using that pe[of "c # cs" x y] by simp
  show "(ya, c # cs) \<in> measure length"
    if "parseEscape (c # cs) = Some x2" "(x, y) = x2"
      "continuationOctets (leadingOnes x - 1) y = Some x2a" "(xa, ya) = x2a"
    for c :: jschar and cs x2 x y x2a xa ya
    using that pe[of "c # cs" x y] co[of "leadingOnes x - 1" y xa ya] by simp
qed

text \<open>\<open>String.prototype.isWellFormed\<close>: no surrogate stands alone.\<close>

fun isWellFormed :: "jsstring \<Rightarrow> bool" where
  "isWellFormed [] = True"
| "isWellFormed [c] = (\<not> isHighSurrogate c \<and> \<not> isLowSurrogate c)"
| "isWellFormed (c # d # ds) =
     (if isHighSurrogate c then isLowSurrogate d \<and> isWellFormed ds
      else \<not> isLowSurrogate c \<and> isWellFormed (d # ds))"

section \<open>utils/uri-builder.ts\<close>

text \<open>\<open>path.replace(/^\/+/, '')\<close> followed by \<open>encodeURIComponent\<close>.\<close>

definition encodeUriPathComponent :: "jsstring \<Rightarrow> jsstring option" where
  "encodeUriPathComponent path = encodeURIComponent (dropWhile (\<lambda>c. c = 0x2F) path)"

text \<open>The \<open>URIError\<close> of a thrown \<open>encodeURIComponent\<close> or \<open>decodeURIComponent\<close>.\<close>

definition uriError :: error where
  "uriError = Error (js ''URI malformed'')"

definition buildComponentDetailUriSuffix :: "jsstring \<Rightarrow> jsstring \<Rightarrow> jsstring" where
  "buildComponentDetailUriSuffix type name = js ''components/'' @ type @ js ''/'' @ name"

definition buildComponentMapUriSuffix :: "jsstring \<Rightarrow> jsstring" where
  "buildComponentMapUriSuffix type = js ''components/'' @ type"

definition buildOperationUriSuffix :: "jsstring \<Rightarrow> jsstring \<Rightarrow> error + jsstring" where
  "buildOperationUriSuffix path method =
     (case encodeUriPathComponent path of
        None \<Rightarrow> Inl uriError
      | Some e \<Rightarrow> Inr (js ''paths/'' @ e @ js ''/'' @ toLowerCase method))"

definition buildPathItemUriSuffix :: "jsstring \<Rightarrow> error + jsstring" where
  "buildPathItemUriSuffix path =
     (case encodeUriPathComponent path of
        None \<Rightarrow> Inl uriError
      | Some e \<Rightarrow> Inr (js ''paths/'' @ e))"

section \<open>rendering/types.ts and rendering/utils.ts\<close>

record IFormatter =
  format :: "json \<Rightarrow> jsstring"
  getMimeType :: jsstring

record RenderContext =
  formatter :: IFormatter
  baseUri :: jsstring
  specId :: jsstring

text \<open>\<open>data\<close> is \<open>None\<close> for \<open>null\<close>; the text of a list view is a \<open>JStr\<close>.\<close>

record RenderResultItem =
  uriSuffix :: jsstring
  data :: "json option"
  isErrorItem :: bool
  errorText :: "jsstring option"
  renderAsList :: bool

definition createErrorResult :: "jsstring \<Rightarrow> jsstring \<Rightarrow> RenderResultItem list" where
  "createErrorResult suf message =
     [\<lparr> uriSuffix = suf, data = None, isErrorItem = True,
        errorText = Some message, renderAsList = True \<rparr>]"

text \<open>A field of a JSON object that holds a non-empty string.\<close>

definition stringField :: "json \<Rightarrow> jsstring \<Rightarrow> jsstring option" where
  "stringField obj k =
     (case obj of
        JObj kvs \<Rightarrow>
          (case map_of kvs k of
             Some (JStr s) \<Rightarrow> if s = [] then None else Some s
           | _ \<Rightarrow> None)
      | _ \<Rightarrow> None)"

text \<open>\<open>operation?.summary || operation?.operationId || null\<close>\<close>

definition getOperationSummary :: "json option \<Rightarrow> jsstring option" where
  "getOperationSummary operation =
     (case operation of
        None \<Rightarrow> None
      | Some obj \<Rightarrow>
          (case stringField obj (js ''summary'') of
             Some s \<Rightarrow> Some s
           | None \<Rightarrow> stringField obj (js ''operationId'')))"

datatype ListItemType = componentType | componentName | pathMethod

record HintContext =
  itemType :: ListItemType
  firstItemExample :: "jsstring option"
  parentComponentType :: "jsstring option"
  parentPath :: "jsstring option"

text \<open>A string that may be undefined is truthy when it is defined and not empty.\<close>

definition truthy :: "jsstring option \<Rightarrow> bool" where
  "truthy x = (case x of None \<Rightarrow> False | Some s \<Rightarrow> s \<noteq> [])"

definition hintText :: "RenderContext \<Rightarrow> jsstring \<Rightarrow> jsstring \<Rightarrow> jsstring option \<Rightarrow> jsstring" where
  "hintText renderContext detailUriSuffixPattern itemTypeName exampleUriSuffix =
     js [CHR 0x0A] @ js ''Hint: Use '' @ [0x27] @ baseUri renderContext @ detailUriSuffixPattern
       @ [0x27] @ js '' to view details for a specific '' @ itemTypeName @ js ''.''
       @ (case exampleUriSuffix of
            None \<Rightarrow> []
          | Some ex \<Rightarrow> js '' (e.g., '' @ baseUri renderContext @ ex @ js '')'')"

definition generateListHint :: "RenderContext \<Rightarrow> HintContext \<Rightarrow> error + jsstring" where
  "generateListHint renderContext hintContext =
     (let specIdPrefix = (if specId renderContext \<noteq> [] then specId renderContext @ js ''/'' else [])
      in case itemType hintContext of
           componentType \<Rightarrow>
             Inr (hintText renderContext
                    (specIdPrefix @ buildComponentMapUriSuffix (js ''{type}''))
                    (js ''component type'')
                    (if truthy (firstItemExample hintContext)
                     then Some (specIdPrefix
                                @ buildComponentMapUriSuffix (the (firstItemExample hintContext)))
                     else None))
         | componentName \<Rightarrow>
             (if \<not> truthy (parentComponentType hintContext) then Inr []
              else
                (let parent = the (parentComponentType hintContext)
                 in Inr (hintText renderContext
                           (specIdPrefix @ buildComponentDetailUriSuffix parent (js ''{name}''))
                           (butlast parent)
                           (if truthy (firstItemExample hintContext)
                            then Some (specIdPrefix
                                       @ buildComponentDetailUriSuffix parent
                                           (the (firstItemExample hintContext)))
                            else None))))
         | pathMethod \<Rightarrow>
             (if \<not> truthy (parentPath hintContext) then Inr []
              else
                (let parent = the (parentPath hintContext)
                 in case buildOperationUriSuffix parent (js ''{method}'') of
                      Inl e \<Rightarrow> Inl e
                    | Inr pat \<Rightarrow>
                        (if truthy (firstItemExample hintContext)
                         then (case buildOperationUriSuffix parent (the (firstItemExample hintContext)) of
                                 Inl e \<Rightarrow> Inl e
                               | Inr ex \<Rightarrow>
                                   Inr (hintText renderContext (specIdPrefix @ pat) (js ''operation'')
                                          (Some (specIdPrefix @ ex))))
                         else Inr (hintText renderContext (specIdPrefix @ pat) (js ''operation'') None)))))"

section \<open>The services behind the handlers\<close>

text \<open>
  What \<open>getTransformedSpec\<close> resolves to: a document that passes the type guard
  \<open>isOpenAPIV3\<close>, or any other value.
\<close>

datatype spec = OpenAPIV3 document | OtherSpec

text \<open>
  A handler holds the registry and the formatter. \<open>getTransformedSpec\<close> stands for the
  method of the loader (the reference transformation of its document): the value it
  resolves to, or the error it rejects with.
\<close>

record services =
  specManager :: registry
  getTransformedSpec :: "loader \<Rightarrow> error + spec"
  theFormatter :: IFormatter

text \<open>What a handler does besides answering: the calls it makes and what it logs.\<close>

datatype event =
    GetLoaderCall jsstring
  | GetTransformedSpecCall loader
  | ConsoleError jsstring

text \<open>
  The first three statements of every \<open>try\<close> block: \<open>getLoader\<close>, \<open>getTransformedSpec\<close> and
  the type guard. The result is the document or the error thrown, with the calls made.
\<close>

definition loadDocument :: "services \<Rightarrow> jsstring \<Rightarrow> (error + document) \<times> event list" where
  "loadDocument sv sid =
     (case getLoader (specManager sv) sid of
        Inl e \<Rightarrow> (Inl e, [GetLoaderCall sid])
      | Inr ld \<Rightarrow>
          (case getTransformedSpec sv ld of
             Inl e \<Rightarrow> (Inl e, [GetLoaderCall sid, GetTransformedSpecCall ld])
           | Inr OtherSpec \<Rightarrow>
               (Inl (Error (js ''Only OpenAPI v3 specifications are supported'')),
                [GetLoaderCall sid, GetTransformedSpecCall ld])
           | Inr (OpenAPIV3 doc) \<Rightarrow> (Inr doc, [GetLoaderCall sid, GetTransformedSpecCall ld])))"

text \<open>
  The \<open>catch\<close> block and the last statement of a handler: an error becomes one error item
  at the given suffix and is logged, and the items are formatted.
\<close>

definition consoleMessage :: "jsstring \<Rightarrow> jsstring \<Rightarrow> jsstring" where
  "consoleMessage href message = js ''Error handling request '' @ href @ js '': '' @ message"

section \<open>handlers/handler-utils.ts and the renderable classes\<close>

text \<open>
  Modelled from the spec: \<open>formatResults\<close> of handlers/handler-utils.ts, which is not among
  the sources. Each item gets its full URI (base URI, spec id, suffix), the MIME type
  \<open>text/plain\<close> for a list or error view and the formatter's type for a detail view, its
  text (the error text, the list text, or the formatted payload) and its error flag.
\<close>

definition formatItem :: "RenderContext \<Rightarrow> RenderResultItem \<Rightarrow> FormattedResultItem" where
  "formatItem context item =
     \<lparr> uri = baseUri context @ specId context @ js ''/'' @ uriSuffix item,
       mimeType = (if renderAsList item then js ''text/plain'' else getMimeType (formatter context)),
       itemText =
         (if isErrorItem item then (case errorText item of Some t \<Rightarrow> t | None \<Rightarrow> [])
          else if renderAsList item then (case data item of Some (JStr s) \<Rightarrow> s | _ \<Rightarrow> [])
          else (case data item of Some v \<Rightarrow> format (formatter context) v
                | None \<Rightarrow> format (formatter context) JNull)),
       isError = Some (isErrorItem item) \<rparr>"

definition formatResults :: "RenderContext \<Rightarrow> RenderResultItem list \<Rightarrow> FormattedResultItem list" where
  "formatResults context items = map (formatItem context) items"

text \<open>
  Modelled from the spec: the constant \<open>VALID_COMPONENT_TYPES\<close> of rendering/components.ts,
  the fixed allow-list of component categories.
\<close>

definition VALID_COMPONENT_TYPES :: "jsstring list" where
  "VALID_COMPONENT_TYPES =
     [js ''schemas'', js ''responses'', js ''parameters'', js ''examples'', js ''requestBodies'',
      js ''headers'', js ''securitySchemes'', js ''links'', js ''callbacks'']"

text \<open>
  Modelled from the spec: \<open>getValidatedComponentMap\<close> of handlers/handler-utils.ts. A type
  without a key in \<open>components\<close> fails with the error that lists the available types,
  in the words that the handler tests expect.
\<close>

definition getValidatedComponentMap :: "document \<Rightarrow> jsstring \<Rightarrow> error + (jsstring \<times> json) list" where
  "getValidatedComponentMap doc type =
     (let comps = (case components doc of None \<Rightarrow> [] | Some cs \<Rightarrow> cs)
      in case map_of comps type of
           None \<Rightarrow>
             Inl (Error (js ''Component type \"'' @ type
                         @ js ''\" not found in the specification. Available types: ''
                         @ join (js '', '') (map fst comps)))
         | Some m \<Rightarrow> Inr m)"

text \<open>
  Modelled from the spec: \<open>getValidatedComponentDetails\<close> of handlers/handler-utils.ts. The
  requested names are partitioned against the keys of the map; no valid name at all is
  the error that repeats the request and lists the keys.
\<close>

definition getValidatedComponentDetails ::
  "(jsstring \<times> json) list \<Rightarrow> jsstring list \<Rightarrow> jsstring \<Rightarrow> error + (jsstring \<times> json) list" where
  "getValidatedComponentDetails m names type =
     (let valid = filter (\<lambda>n. n \<in> fst ` set m) names
      in if valid = []
         then Inl (Error (js ''None of the requested names ('' @ join (js '', '') names
                          @ js '') are valid for component type \"'' @ type
                          @ js ''\". Available names: '' @ join (js '', '') (map fst m)))
         else Inr (map (\<lambda>n. (n, the (map_of m n))) valid))"

text \<open>
  Modelled from the spec: \<open>RenderableComponentMap\<close> of rendering/components.ts. The list
  view of an empty map is the error item \<open>No components of type ... found.\<close>; otherwise
  it is one line per name, followed by the hint. The detail view is one item per name,
  each at its own suffix, carrying the component as it is.
\<close>

definition componentMapRenderList ::
  "RenderContext \<Rightarrow> (jsstring \<times> json) list \<Rightarrow> jsstring \<Rightarrow> jsstring \<Rightarrow> error + RenderResultItem list" where
  "componentMapRenderList context m type mapUriSuffix =
     (if m = []
      then Inr (createErrorResult mapUriSuffix
                  (js ''No components of type \"'' @ type @ js ''\" found.''))
      else
        (case generateListHint context
                \<lparr> itemType = componentName, firstItemExample = Some (fst (hd m)),
                  parentComponentType = Some type, parentPath = None \<rparr> of
           Inl e \<Rightarrow> Inl e
         | Inr hint \<Rightarrow>
             Inr [\<lparr> uriSuffix = mapUriSuffix,
                    data = Some (JStr (js ''Available '' @ type @ js '':'' @ js [CHR 0x0A]
                             @ concat (map (\<lambda>n. js ''- '' @ n @ js [CHR 0x0A]) (map fst m))
                             @ hint)),
                    isErrorItem = False, errorText = None, renderAsList = True \<rparr>]))"

definition renderComponentDetail ::
  "(jsstring \<times> json) list \<Rightarrow> jsstring \<Rightarrow> jsstring list \<Rightarrow> RenderResultItem list" where
  "renderComponentDetail m type names =
     map (\<lambda>n. \<lparr> uriSuffix = buildComponentDetailUriSuffix type n, data = map_of m n,
                isErrorItem = False, errorText = None, renderAsList = False \<rparr>) names"

text \<open>
  Modelled from the spec: \<open>getValidatedPathItem\<close> of handlers/handler-utils.ts. A path that
  is not a key of \<open>paths\<close> is the error \<open>Path ... not found in the specification.\<close>
\<close>

definition getValidatedPathItem :: "document \<Rightarrow> jsstring \<Rightarrow> error + (jsstring \<times> json) list" where
  "getValidatedPathItem doc path =
     (case map_of (case paths doc of None \<Rightarrow> [] | Some ps \<Rightarrow> ps) path of
        None \<Rightarrow> Inl (Error (js ''Path \"'' @ path @ js ''\" not found in the specification.''))
      | Some item \<Rightarrow> Inr item)"

text \<open>
  Modelled from the spec: the canonical method set, in its canonical order, and the
  declared methods of a path item: the canonical methods that are keys of the item, in
  canonical order.
\<close>

definition canonicalMethods :: "jsstring list" where
  "canonicalMethods =
     [js ''get'', js ''post'', js ''put'', js ''delete'', js ''patch'', js ''options'',
      js ''head'', js ''trace'']"

definition declaredMethods :: "(jsstring \<times> json) list \<Rightarrow> jsstring list" where
  "declaredMethods pathItem = filter (\<lambda>m. m \<in> fst ` set pathItem) canonicalMethods"

text \<open>
  Modelled from the spec: \<open>getValidatedOperations\<close> of handlers/handler-utils.ts. The
  requested methods are partitioned against the declared ones. No valid method at all
  is the error that repeats the request as given and lists the declared methods.
\<close>

definition getValidatedOperations ::
  "(jsstring \<times> json) list \<Rightarrow> jsstring list \<Rightarrow> jsstring \<Rightarrow> error + jsstring list" where
  "getValidatedOperations pathItem methods path =
     (let valid = filter (\<lambda>m. m \<in> set (declaredMethods pathItem)) methods
      in if valid = []
         then Inl (Error (js ''None of the requested methods ('' @ join (js '', '') methods
                          @ js '') are valid for path \"'' @ path
                          @ js ''\". Available methods: ''
                          @ join (js '', '') (declaredMethods pathItem)))
         else Inr valid)"

text \<open>Upper case for the method names of a listing (ASCII letters).\<close>

definition toUpperCase :: "jsstring \<Rightarrow> jsstring" where
  "toUpperCase s = map (\<lambda>c. if isLower c then c - 0x20 else c) s"

text \<open>
  Modelled from the spec: \<open>RenderablePathItem\<close> of rendering/path-item.ts. The list view
  is one line per declared method, the method name followed by the summary or operation
  id of its operation where there is one, and then the hint; a path item without
  declared methods says so. The detail view is one item per method, each at its own
  operation suffix, carrying the operation as it is.
\<close>

definition methodLine :: "(jsstring \<times> json) list \<Rightarrow> jsstring \<Rightarrow> jsstring" where
  "methodLine pathItem m =
     toUpperCase m
     @ (case getOperationSummary (map_of pathItem m) of
          None \<Rightarrow> []
        | Some s \<Rightarrow> js '': '' @ s)"

definition pathItemRenderList ::
  "RenderContext \<Rightarrow> (jsstring \<times> json) list \<Rightarrow> jsstring \<Rightarrow> jsstring \<Rightarrow> error + RenderResultItem list" where
  "pathItemRenderList context pathItem path pathUriSuffix =
     (if declaredMethods pathItem = []
      then Inr [\<lparr> uriSuffix = pathUriSuffix,
                  data = Some (JStr (js ''No standard HTTP methods found for path: ''
                                     @ dropWhile (\<lambda>c. c = 0x2F) path)),
                  isErrorItem = False, errorText = None, renderAsList = True \<rparr>]
      else
        (case generateListHint context
                \<lparr> itemType = pathMethod, firstItemExample = Some (hd (declaredMethods pathItem)),
                  parentComponentType = None, parentPath = Some path \<rparr> of
           Inl e \<Rightarrow> Inl e
         | Inr hint \<Rightarrow>
             Inr [\<lparr> uriSuffix = pathUriSuffix,
                    data = Some (JStr (join (js [CHR 0x0A])
                                         (map (methodLine pathItem) (declaredMethods pathItem))
                                       @ js [CHR 0x0A] @ hint)),
                    isErrorItem = False, errorText = None, renderAsList = True \<rparr>]))"


section \<open>The handlers\<close>

definition finish ::
  "RenderContext \<Rightarrow> jsstring \<Rightarrow> jsstring \<Rightarrow> (error + RenderResultItem list) \<times> event list
   \<Rightarrow> FormattedResultItem list \<times> event list" where
  "finish context href errorSuffix r =
     (case r of
        (Inl (Error message), evs) \<Rightarrow>
          (formatResults context (createErrorResult errorSuffix message),
           evs @ [ConsoleError (consoleMessage href message)])
      | (Inr items, evs) \<Rightarrow> (formatResults context items, evs))"

definition BASE_URI :: jsstring where
  "BASE_URI = js ''openapi://''"

definition makeContext :: "services \<Rightarrow> jsstring \<Rightarrow> RenderContext" where
  "makeContext sv sid = \<lparr> formatter = theFormatter sv, baseUri = BASE_URI, specId = sid \<rparr>"

subsection \<open>handlers/component-map-handler.ts\<close>

definition componentMapTry ::
  "services \<Rightarrow> RenderContext \<Rightarrow> jsstring \<Rightarrow> jsstring \<Rightarrow> (error + RenderResultItem list) \<times> event list" where
  "componentMapTry sv context sid type =
     (if type \<notin> set VALID_COMPONENT_TYPES
      then (Inl (Error (js ''Invalid component type: '' @ type)), [])
      else
        (case loadDocument sv sid of
           (Inl e, evs) \<Rightarrow> (Inl e, evs)
         | (Inr doc, evs) \<Rightarrow>
             (case getValidatedComponentMap doc type of
                Inl e \<Rightarrow> (Inl e, evs)
              | Inr componentMapObj \<Rightarrow>
                  (componentMapRenderList context componentMapObj type (js ''components/'' @ type),
                   evs))))"

definition componentMapHandleRequest ::
  "services \<Rightarrow> jsstring \<Rightarrow> jsstring \<Rightarrow> jsstring \<Rightarrow> FormattedResultItem list \<times> event list" where
  "componentMapHandleRequest sv href sid type =
     finish (makeContext sv sid) href (js ''components/'' @ type)
       (componentMapTry sv (makeContext sv sid) sid type)"

subsection \<open>handlers/component-detail-handler.ts\<close>

text \<open>A variable of the URI template: a string, or the array of an exploded variable.\<close>

datatype variable = VString jsstring | VArray "jsstring list"

definition parseNames :: "variable option \<Rightarrow> jsstring list" where
  "parseNames nameVar =
     filter (\<lambda>n. length n > 0)
       (case nameVar of
          Some (VArray ns) \<Rightarrow> map trim ns
        | Some (VString s) \<Rightarrow> [trim s]
        | None \<Rightarrow> [])"

definition componentDetailTry ::
  "services \<Rightarrow> jsstring \<Rightarrow> jsstring \<Rightarrow> variable option \<Rightarrow> (error + RenderResultItem list) \<times> event list" where
  "componentDetailTry sv sid type nameVar =
     (if type \<notin> set VALID_COMPONENT_TYPES
      then (Inl (Error (js ''Invalid component type: '' @ type)), [])
      else if length (parseNames nameVar) = 0
      then (Inl (Error (js ''No valid component name specified.'')), [])
      else
        (case loadDocument sv sid of
           (Inl e, evs) \<Rightarrow> (Inl e, evs)
         | (Inr doc, evs) \<Rightarrow>
             (case getValidatedComponentMap doc type of
                Inl e \<Rightarrow> (Inl e, evs)
              | Inr componentMapObj \<Rightarrow>
                  (case getValidatedComponentDetails componentMapObj (parseNames nameVar) type of
                     Inl e \<Rightarrow> (Inl e, evs)
                   | Inr validDetails \<Rightarrow>
                       (Inr (renderComponentDetail componentMapObj type (map fst validDetails)),
                        evs)))))"

definition componentDetailErrorSuffix :: "jsstring \<Rightarrow> variable option \<Rightarrow> jsstring" where
  "componentDetailErrorSuffix type nameVar =
     (case nameVar of
        Some (VArray ns) \<Rightarrow> js ''components/'' @ type @ js ''/'' @ join (js '','') ns
      | Some (VString s) \<Rightarrow>
          if s \<noteq> [] then js ''components/'' @ type @ js ''/'' @ s else js ''components/'' @ type
      | None \<Rightarrow> js ''components/'' @ type)"

definition componentDetailHandleRequest ::
  "services \<Rightarrow> jsstring \<Rightarrow> jsstring \<Rightarrow> jsstring \<Rightarrow> variable option
   \<Rightarrow> FormattedResultItem list \<times> event list" where
  "componentDetailHandleRequest sv href sid type nameVar =
     finish (makeContext sv sid) href (componentDetailErrorSuffix type nameVar)
       (componentDetailTry sv sid type nameVar)"

subsection \<open>handlers/path-item-handler.ts\<close>

text \<open>\<open>decodedPath.startsWith('/') ? decodedPath : `/${decodedPath}`\<close>\<close>

definition lookupPath :: "jsstring \<Rightarrow> jsstring" where
  "lookupPath decodedPath =
     (if prefix [0x2F] decodedPath then decodedPath else 0x2F # decodedPath)"

definition pathItemTry ::
  "services \<Rightarrow> RenderContext \<Rightarrow> jsstring \<Rightarrow> jsstring \<Rightarrow> jsstring
   \<Rightarrow> (error + RenderResultItem list) \<times> event list" where
  "pathItemTry sv context sid decodedPath pathUriSuffix =
     (case loadDocument sv sid of
        (Inl e, evs) \<Rightarrow> (Inl e, evs)
      | (Inr doc, evs) \<Rightarrow>
          (case getValidatedPathItem doc (lookupPath decodedPath) of
             Inl e \<Rightarrow> (Inl e, evs)
           | Inr pathItemObj \<Rightarrow>
               (pathItemRenderList context pathItemObj (lookupPath decodedPath) pathUriSuffix, evs)))"

text \<open>
  The path is decoded and the suffix is built before the \<open>try\<close> block: a \<open>URIError\<close> of
  either rejects the request.
\<close>

definition pathItemHandleRequest ::
  "services \<Rightarrow> jsstring \<Rightarrow> jsstring \<Rightarrow> jsstring option
   \<Rightarrow> error + FormattedResultItem list \<times> event list" where
  "pathItemHandleRequest sv href sid encodedPath =
     (case decodeURIComponent (orElse encodedPath []) of
        None \<Rightarrow> Inl uriError
      | Some decodedPath \<Rightarrow>
          (case buildPathItemUriSuffix decodedPath of
             Inl e \<Rightarrow> Inl e
           | Inr pathUriSuffix \<Rightarrow>
               Inr (finish (makeContext sv sid) href pathUriSuffix
                      (pathItemTry sv (makeContext sv sid) sid decodedPath pathUriSuffix))))"

subsection \<open>handlers/operation-handler.ts\<close>





section \<open>The completion callbacks of index.ts\<close>

text \<open>
  \<open>getSpecComponentTypes\<close>: the keys of \<open>components\<close> of the transformed document, and the
  empty list where the document has no \<open>components\<close>, is no OpenAPI v3 document or
  cannot be loaded.
\<close>

definition getSpecComponentTypes :: "services \<Rightarrow> jsstring \<Rightarrow> jsstring list" where
  "getSpecComponentTypes sv sid =
     (case fst (loadDocument sv sid) of
        Inl e \<Rightarrow> []
      | Inr doc \<Rightarrow> (case components doc of None \<Rightarrow> [] | Some cs \<Rightarrow> map fst cs))"

text \<open>The callback \<open>type\<close> of the component templates: the types of the first slug.\<close>

definition typeCompletion :: "services \<Rightarrow> jsstring list" where
  "typeCompletion sv =
     (case getSpecSlugs (specManager sv) of
        [] \<Rightarrow> []
      | s # rest \<Rightarrow> getSpecComponentTypes sv s)"

text \<open>
  The callback \<open>name\<close> of the component detail template: names are offered only where
  one spec is loaded and its \<open>components\<close> has exactly one key.
\<close>

definition nameCompletion :: "services \<Rightarrow> jsstring list" where
  "nameCompletion sv =
     (case getSpecSlugs (specManager sv) of
        [s] \<Rightarrow>
          (case fst (loadDocument sv s) of
             Inl e \<Rightarrow> []
           | Inr doc \<Rightarrow>
               (case components doc of
                  None \<Rightarrow> []
                | Some cs \<Rightarrow>
                    (case map fst cs of
                       [t] \<Rightarrow>
                         (case getValidatedComponentMap doc t of
                            Inl e \<Rightarrow> []
                          | Inr componentMap \<Rightarrow> map fst componentMap)
                     | _ \<Rightarrow> [])))
      | _ \<Rightarrow> [])"

text \<open>The component categories of a document that hold at least one component.\<close>

definition nonEmptyCategories :: "document \<Rightarrow> jsstring list" where
  "nonEmptyCategories doc =
     map fst (filter (\<lambda>c. snd c \<noteq> []) (case components doc of None \<Rightarrow> [] | Some cs \<Rightarrow> cs))"

section \<open>The documents of the handler tests\<close>

definition getOperation :: json where
  "getOperation = JObj [(js ''summary'', JStr (js ''Get Item''))]"

definition postOperation :: json where
  "postOperation = JObj [(js ''summary'', JStr (js ''Create Item''))]"

definition sampleSpec :: document where
  "sampleSpec =
     \<lparr> infoTitle = Some (js ''Test API''), infoDescription = None,
       infoVersion = Some (js ''1.0.0''),
       paths = Some [(js ''/items'', [(js ''get'', getOperation), (js ''post'', postOperation)]),
                     (js ''/reversed'', [(js ''post'', postOperation), (js ''get'', getOperation)]),
                     (js ''/empty'', [])],
       components = Some [(js ''schemas'', [(js ''User'', JObj [(js ''type'', JStr (js ''object''))])]),
                          (js ''examples'', [])] \<rparr>"

definition keysFormatter :: IFormatter where
  "keysFormatter =
     \<lparr> format = (\<lambda>v. case v of JObj kvs \<Rightarrow> js ''{'' @ join (js '','') (map fst kvs) @ js ''}''
                       | _ \<Rightarrow> js ''null''),
       getMimeType = js ''application/json'' \<rparr>"

definition schemasOnlySpec :: document where
  "schemasOnlySpec =
     \<lparr> infoTitle = Some (js ''Test API''), infoDescription = None,
       infoVersion = Some (js ''1.0.0''), paths = Some [],
       components = Some [(js ''schemas'', [(js ''User'', JObj [(js ''type'', JStr (js ''object''))]),
                                            (js ''Error'', JObj [(js ''type'', JStr (js ''object''))])])] \<rparr>"

text \<open>The services of a server started on one file that holds the given document.\<close>

definition servicesFor :: "document \<Rightarrow> services" where
  "servicesFor doc =
     \<lparr> specManager = snd (loadSpecs (\<lambda>p. Inr doc) [js ''test.json''] []),
       getTransformedSpec = (\<lambda>ld. Inr (OpenAPIV3 (rawSpec ld))),
       theFormatter = keysFormatter \<rparr>"

definition sampleServices :: services where
  "sampleServices = servicesFor sampleSpec"

definition sampleEvents :: "document \<Rightarrow> event list" where
  "sampleEvents doc =
     [GetLoaderCall (js ''test-api''),
      GetTransformedSpecCall \<lparr> filePath = js ''test.json'', rawSpec = doc \<rparr>]"

section \<open>Properties of slugify\<close>

lemma isUpper_shift: "isUpper c \<Longrightarrow> isLower (c + 0x20)"
  unfolding isUpper_def isLower_def by (simp add: word_le_nat_alt unat_word_ariths)

lemma lower_not_upper: "isLower c \<Longrightarrow> \<not> isUpper c"
  unfolding isUpper_def isLower_def by (simp add: word_le_nat_alt)

lemma lowerUnit_no_upper: "c' \<in> set (lowerUnit c) \<Longrightarrow> \<not> isUpper c'"
  using isUpper_shift[of c] lower_not_upper[of "c + 0x20"]
  by (auto simp: lowerUnit_def split: if_splits) (simp_all add: isUpper_def)

lemma toLowerCase_no_upper: "c \<in> set (toLowerCase s) \<Longrightarrow> \<not> isUpper c"
  by (auto simp: toLowerCase_def dest: lowerUnit_no_upper)

lemma set_trim: "set (trim s) \<subseteq> set s"
  unfolding trim_def by (auto dest!: set_dropWhileD)

lemma set_trimHyphens: "set (trimHyphens s) \<subseteq> set s"
  unfolding trimHyphens_def by (auto dest!: set_dropWhileD)

lemma set_collapseRuns: "c \<in> set (collapseRuns p s) \<Longrightarrow> c = hyphen \<or> (c \<in> set s \<and> \<not> p c)"
  by (induction p s rule: collapseRuns.induct) (auto split: if_splits dest: set_dropWhileD)

lemma slugify_chars: "c \<in> set (slugify t) \<Longrightarrow> isLower c \<or> isDigit c \<or> c = hyphen"
proof -
  assume "c \<in> set (slugify t)"
  then have "c \<in> set (collapseRuns isHyphen (collapseRuns isSpaceOrUnderscore
       (stripNonWord (trim (toLowerCase t)))))"
    unfolding slugify_def using set_trimHyphens by blast
  then have "c = hyphen
      \<or> c \<in> set (collapseRuns isSpaceOrUnderscore (stripNonWord (trim (toLowerCase t))))"
    by (auto dest: set_collapseRuns)
  then have "c = hyphen
      \<or> (c \<in> set (stripNonWord (trim (toLowerCase t))) \<and> \<not> isSpaceOrUnderscore c)"
    by (auto dest: set_collapseRuns)
  moreover have "c \<in> set (stripNonWord (trim (toLowerCase t)))
      \<Longrightarrow> \<not> isUpper c \<and> (isWordChar c \<or> isSpace c \<or> c = hyphen)"
    using set_trim[of "toLowerCase t"] toLowerCase_no_upper[of c t] by (auto simp: stripNonWord_def)
  ultimately show ?thesis
    by (auto simp: isSpaceOrUnderscore_def isWordChar_def)
qed

lemma collapse_hyphen_head:
  "collapseRuns isHyphen s = c # d # r \<Longrightarrow> \<not> (c = hyphen \<and> d = hyphen)"
proof (induction "isHyphen" s arbitrary: c d r rule: collapseRuns.induct)
  case 1
  then show ?case by simp
next
  case (2 x xs)
  show ?case
  proof (cases "isHyphen x")
    case True
    with 2(3) have *: "collapseRuns isHyphen (dropWhile isHyphen xs) = d # r" by simp
    have "dropWhile isHyphen xs = [] \<or> \<not> isHyphen (hd (dropWhile isHyphen xs))"
      using hd_dropWhile by blast
    then show ?thesis
      using * by (cases "dropWhile isHyphen xs") (auto simp: isHyphen_def split: if_splits)
  next
    case False
    with 2(3) show ?thesis by (auto simp: isHyphen_def)
  qed
qed

lemma noDouble_collapse: "noDoubleHyphen (collapseRuns isHyphen s)"
proof (induction "isHyphen" s rule: collapseRuns.induct)
  case 1
  show ?case by simp
next
  case (2 c cs)
  show ?case
  proof (cases "collapseRuns isHyphen (c # cs)")
    case Nil
    then show ?thesis by simp
  next
    case (Cons a rest)
    note outer = Cons
    show ?thesis
    proof (cases rest)
      case Nil
      with outer show ?thesis by simp
    next
      case (Cons b rest')
      with outer have eq: "collapseRuns isHyphen (c # cs) = a # b # rest'" by simp
      from collapse_hyphen_head[OF eq] have nd: "\<not> (a = hyphen \<and> b = hyphen)" .
      have "noDoubleHyphen (b # rest')"
        using 2 eq by (auto split: if_splits)
      with nd eq show ?thesis by simp
    qed
  qed
qed

lemma noDouble_dropWhile: "noDoubleHyphen s \<Longrightarrow> noDoubleHyphen (dropWhile p s)"
  by (induction s rule: noDoubleHyphen.induct) auto

lemma noDouble_append: "noDoubleHyphen (xs @ ys) \<Longrightarrow> noDoubleHyphen xs"
  by (induction xs rule: noDoubleHyphen.induct) auto

lemma noDouble_trimHyphens: "noDoubleHyphen s \<Longrightarrow> noDoubleHyphen (trimHyphens s)"
proof -
  assume a: "noDoubleHyphen s"
  let ?t = "dropWhile isHyphen s"
  have "?t = rev (dropWhile isHyphen (rev ?t)) @ rev (takeWhile isHyphen (rev ?t))"
    by (metis rev_append rev_rev_ident takeWhile_dropWhile_id)
  then have "noDoubleHyphen (rev (dropWhile isHyphen (rev ?t)) @ rev (takeWhile isHyphen (rev ?t)))"
    using noDouble_dropWhile[OF a, of isHyphen] by simp
  then show ?thesis unfolding trimHyphens_def by (rule noDouble_append)
qed

lemma slugify_noDouble: "noDoubleHyphen (slugify t)"
  unfolding slugify_def by (intro noDouble_trimHyphens noDouble_collapse)

lemma trimHyphens_ends:
  "trimHyphens s \<noteq> [] \<Longrightarrow> hd (trimHyphens s) \<noteq> hyphen \<and> last (trimHyphens s) \<noteq> hyphen"
proof -
  assume ne: "trimHyphens s \<noteq> []"
  let ?t = "dropWhile isHyphen s"
  let ?u = "dropWhile isHyphen (rev ?t)"
  from ne have une: "?u \<noteq> []" by (simp add: trimHyphens_def)
  then have "\<not> isHyphen (hd ?u)" using hd_dropWhile by blast
  then have l: "last (trimHyphens s) \<noteq> hyphen"
    using une by (simp add: trimHyphens_def last_rev isHyphen_def)
  from une have tne: "?t \<noteq> []" by (metis dropWhile.simps(1) rev.simps(1))
  then have h: "\<not> isHyphen (hd ?t)" using hd_dropWhile by blast
  have "?t = rev ?u @ rev (takeWhile isHyphen (rev ?t))"
    by (metis rev_append rev_rev_ident takeWhile_dropWhile_id)
  then have "hd ?t = hd (rev ?u)" using une by (metis hd_append2 rev_is_Nil_conv)
  with h have "hd (trimHyphens s) \<noteq> hyphen" by (simp add: trimHyphens_def isHyphen_def)
  with l show ?thesis by simp
qed

lemma slugify_ends:
  "slugify t \<noteq> [] \<Longrightarrow> hd (slugify t) \<noteq> hyphen \<and> last (slugify t) \<noteq> hyphen"
  unfolding slugify_def by (rule trimHyphens_ends)

text \<open>The example of the doc comment of \<open>slugify\<close>.\<close>

lemma slugify_example: "slugify (js ''VTEX - Catalog API'') = js ''vtex-catalog-api''"
  by code_simp

section \<open>Properties of loadSpecs\<close>

lemma slug_make [simp]: "slug (makeLoadedSpec p d) = specSlug d p"
  by (simp add: makeLoadedSpec_def)

lemma loop_Cons_cases:
  assumes "loadSpecsLoop load (p # ps) specs = (r, specs')"
  obtains (fail) e where "load p = Inl e" "r = Some e" "specs' = specs"
  | (skip) d where "load p = Inr d" "has specs (specSlug d p)"
      "loadSpecsLoop load ps specs = (r, specs')"
  | (add) d where "load p = Inr d" "\<not> has specs (specSlug d p)"
      "loadSpecsLoop load ps (specs @ [(specSlug d p, makeLoadedSpec p d)]) = (r, specs')"
proof (cases "load p")
  case (Inl e)
  with assms fail show ?thesis by simp
next
  case (Inr d)
  show ?thesis
  proof (cases "has specs (specSlug d p)")
    case True
    with assms Inr skip show ?thesis by (simp add: Let_def)
  next
    case False
    with assms Inr add show ?thesis by (simp add: Let_def)
  qed
qed

lemma loop_append:
  "loadSpecsLoop load (ps1 @ ps2) specs =
     (case loadSpecsLoop load ps1 specs of
        (Some e, s) \<Rightarrow> (Some e, s)
      | (None, s) \<Rightarrow> loadSpecsLoop load ps2 s)"
proof (induction ps1 arbitrary: specs)
  case Nil
  show ?case by simp
next
  case (Cons p ps1)
  show ?case
  proof (cases "load p")
    case (Inl e)
    then show ?thesis by simp
  next
    case (Inr d)
    then show ?thesis using Cons.IH by (simp add: Let_def)
  qed
qed

lemma keyed_snoc:
  "keyed specs \<Longrightarrow> \<not> has specs (specSlug d p) \<Longrightarrow>
   keyed (specs @ [(specSlug d p, makeLoadedSpec p d)])"
  by (simp add: keyed_def has_def)

lemma loop_keyed:
  "loadSpecsLoop load ps specs = (r, specs') \<Longrightarrow> keyed specs \<Longrightarrow> keyed specs'"
proof (induction ps arbitrary: specs)
  case Nil
  then show ?case by simp
next
  case (Cons q ps)
  from Cons.prems(1) show ?case
  proof (cases rule: loop_Cons_cases)
    case (fail e)
    with Cons.prems show ?thesis by simp
  next
    case (skip d)
    with Cons show ?thesis by blast
  next
    case (add d)
    with Cons keyed_snoc show ?thesis by blast
  qed
qed

lemma loop_entries:
  "loadSpecsLoop load ps specs = (r, specs') \<Longrightarrow> x \<in> set specs' \<Longrightarrow>
     x \<in> set specs \<or> (\<exists>p \<in> set ps. \<exists>d. load p = Inr d \<and> snd x = makeLoadedSpec p d)"
proof (induction ps arbitrary: specs)
  case Nil
  then show ?case by simp
next
  case (Cons q ps)
  from Cons.prems(1) show ?case
  proof (cases rule: loop_Cons_cases)
    case (fail e)
    with Cons.prems show ?thesis by simp
  next
    case (skip d)
    from Cons.IH[OF skip(3) Cons.prems(2)] show ?thesis by auto
  next
    case (add d)
    from Cons.IH[OF add(3) Cons.prems(2)] add(1) show ?thesis by auto
  qed
qed

lemma has_map_of: "has specs k \<longleftrightarrow> map_of specs k \<noteq> None"
  by (simp add: has_def map_of_eq_None_iff)

lemma loop_keeps:
  "loadSpecsLoop load ps specs = (r, specs') \<Longrightarrow> map_of specs k = Some e \<Longrightarrow>
   map_of specs' k = Some e"
proof (induction ps arbitrary: specs)
  case Nil
  then show ?case by simp
next
  case (Cons q ps)
  from Cons.prems(1) show ?case
  proof (cases rule: loop_Cons_cases)
    case (fail e)
    with Cons.prems show ?thesis by simp
  next
    case (skip d)
    from Cons.IH[OF skip(3) Cons.prems(2)] show ?thesis .
  next
    case (add d)
    have "map_of (specs @ [(specSlug d q, makeLoadedSpec q d)]) k = Some e"
      using Cons.prems(2) by (simp add: map_add_Some_iff)
    from Cons.IH[OF add(3) this] show ?thesis .
  qed
qed

lemma first_wins:
  assumes run: "loadSpecsLoop load (ps1 @ p # ps2) [] = (None, specs')"
    and ld: "load p = Inr d"
    and first: "\<forall>q \<in> set ps1. \<forall>d'. load q = Inr d' \<longrightarrow> specSlug d' q \<noteq> specSlug d p"
  shows "map_of specs' (specSlug d p) = Some (makeLoadedSpec p d)"
proof -
  obtain r1 s1 where l1: "loadSpecsLoop load ps1 [] = (r1, s1)" by force
  with run have r1: "r1 = None" and l2: "loadSpecsLoop load (p # ps2) s1 = (None, specs')"
    by (auto simp: loop_append split: option.splits)
  have k1: "keyed s1" using loop_keyed[OF l1] by (simp add: keyed_def)
  have nh: "\<not> has s1 (specSlug d p)"
  proof
    assume "has s1 (specSlug d p)"
    then obtain x where m: "x \<in> set s1" "fst x = specSlug d p" by (auto simp: has_def)
    from loop_entries[OF l1 m(1)]
    obtain q d' where q: "q \<in> set ps1" "load q = Inr d'" "snd x = makeLoadedSpec q d'"
      by auto
    from k1 m have "specSlug d p = slug (snd x)" by (auto simp: keyed_def)
    with q first show False by auto
  qed
  from l2
  have l3: "loadSpecsLoop load ps2 (s1 @ [(specSlug d p, makeLoadedSpec p d)]) = (None, specs')"
  proof (cases rule: loop_Cons_cases)
    case (fail e)
    then show ?thesis by simp
  next
    case (skip d')
    with ld nh show ?thesis by simp
  next
    case (add d')
    with ld show ?thesis by simp
  qed
  have "map_of (s1 @ [(specSlug d p, makeLoadedSpec p d)]) (specSlug d p)
      = Some (makeLoadedSpec p d)"
    using nh by (simp add: has_map_of map_add_Some_iff)
  from loop_keeps[OF l3 this] show ?thesis .
qed


section \<open>The registry: slugs and collisions\<close>

text \<open>
  Claim C6, as stated: the registry slug of every loaded document is computed from its
  title, and of two documents with the same slug only the first loaded is registered.
  The first half fails where the title slugifies to the empty string: the document
  titled \<open>!!!\<close> and loaded from \<open>specs/pets.yaml\<close> is registered under \<open>pets\<close>, the slug
  of its file name, while the slug of its title is empty.
\<close>

theorem slug_from_title_counterexample:
  "getSpecSlugs (snd (loadSpecs demoLoad [js ''specs/pets.yaml''] [])) = [js ''pets'']
   \<and> map title (getAllSpecs (snd (loadSpecs demoLoad [js ''specs/pets.yaml''] []))) = [js ''!!!'']
   \<and> slugify (js ''!!!'') = []"
  by code_simp

text \<open>
  Claim C6, amended. After \<open>loadSpecs\<close> has resolved on an empty registry:
  \<^item> no two entries share a slug;
  \<^item> every entry was made from a document loaded from one of the paths, is stored under
    its slug, and its slug is the slugified title where that is not empty and the
    slugified file name of its path otherwise; the slug consists of lower-case ASCII
    letters, digits and hyphens only, has no two adjacent hyphens and neither starts nor
    ends with a hyphen;
  \<^item> the first path whose document has a given slug is the one registered under it, and
    no other entry of the listing has that slug, so a later document with the same slug
    is skipped.
\<close>

theorem registry_slugs:
  assumes run: "loadSpecs load ps [] = (None, specs')"
  shows "distinct (getSpecSlugs specs')
    \<and> (\<forall>x \<in> set specs'. \<exists>p \<in> set ps. \<exists>d. load p = Inr d \<and> snd x = makeLoadedSpec p d
          \<and> fst x = slug (snd x)
          \<and> slug (snd x) = (if slugify (title (snd x)) \<noteq> [] then slugify (title (snd x))
                             else slugify (fallbackFileName p))
          \<and> (\<forall>c \<in> set (slug (snd x)). isLower c \<or> isDigit c \<or> c = hyphen)
          \<and> noDoubleHyphen (slug (snd x))
          \<and> (slug (snd x) \<noteq> [] \<longrightarrow> hd (slug (snd x)) \<noteq> hyphen \<and> last (slug (snd x)) \<noteq> hyphen))
    \<and> (\<forall>ps1 p ps2 d. ps = ps1 @ p # ps2 \<and> load p = Inr d
          \<and> (\<forall>q \<in> set ps1. \<forall>d'. load q = Inr d' \<longrightarrow> specSlug d' q \<noteq> specSlug d p)
          \<longrightarrow> map_of specs' (specSlug d p) = Some (makeLoadedSpec p d)
              \<and> (\<forall>e \<in> set (getAllSpecs specs'). slug e = specSlug d p \<longrightarrow> e = makeLoadedSpec p d))"
proof -
  from run have loop: "loadSpecsLoop load ps [] = (None, specs')"
    by (auto simp: loadSpecs_def split: prod.splits option.splits if_splits)
  have k: "keyed specs'" using loop_keyed[OF loop] by (simp add: keyed_def)
  then have A: "distinct (getSpecSlugs specs')" by (simp add: keyed_def getSpecSlugs_def)
  have slugprops: "(\<forall>c \<in> set (specSlug d p). isLower c \<or> isDigit c \<or> c = hyphen)
      \<and> noDoubleHyphen (specSlug d p)
      \<and> (specSlug d p \<noteq> [] \<longrightarrow> hd (specSlug d p) \<noteq> hyphen \<and> last (specSlug d p) \<noteq> hyphen)" for d p
    using slugify_chars[of _ "specTitle d"] slugify_chars[of _ "fallbackFileName p"]
      slugify_noDouble[of "specTitle d"] slugify_noDouble[of "fallbackFileName p"]
      slugify_ends[of "specTitle d"] slugify_ends[of "fallbackFileName p"]
    by (simp add: specSlug_def Let_def)
  have B: "\<exists>p \<in> set ps. \<exists>d. load p = Inr d \<and> snd x = makeLoadedSpec p d
          \<and> fst x = slug (snd x)
          \<and> slug (snd x) = (if slugify (title (snd x)) \<noteq> [] then slugify (title (snd x))
                             else slugify (fallbackFileName p))
          \<and> (\<forall>c \<in> set (slug (snd x)). isLower c \<or> isDigit c \<or> c = hyphen)
          \<and> noDoubleHyphen (slug (snd x))
          \<and> (slug (snd x) \<noteq> [] \<longrightarrow> hd (slug (snd x)) \<noteq> hyphen \<and> last (slug (snd x)) \<noteq> hyphen)"
    if x: "x \<in> set specs'" for x
  proof -
    from loop_entries[OF loop x]
    obtain p d where pd: "p \<in> set ps" "load p = Inr d" "snd x = makeLoadedSpec p d"
      by auto
    from k x have fx: "fst x = slug (snd x)" by (auto simp: keyed_def)
    have t: "title (makeLoadedSpec p d) = specTitle d" by (simp add: makeLoadedSpec_def)
    have s: "slug (snd x) = (if slugify (title (snd x)) \<noteq> [] then slugify (title (snd x))
                             else slugify (fallbackFileName p))"
      using pd(3) t by (simp add: specSlug_def Let_def)
    from pd fx s slugprops[of d p] show ?thesis by (intro bexI[of _ p] exI[of _ d]) simp_all
  qed
  have C: "map_of specs' (specSlug d p) = Some (makeLoadedSpec p d)
              \<and> (\<forall>e \<in> set (getAllSpecs specs'). slug e = specSlug d p \<longrightarrow> e = makeLoadedSpec p d)"
    if h: "ps = ps1 @ p # ps2" "load p = Inr d"
       "\<forall>q \<in> set ps1. \<forall>d'. load q = Inr d' \<longrightarrow> specSlug d' q \<noteq> specSlug d p"
    for ps1 p ps2 d
  proof -
    from loop h(1) have "loadSpecsLoop load (ps1 @ p # ps2) [] = (None, specs')" by simp
    from first_wins[OF this h(2) h(3)]
    have m: "map_of specs' (specSlug d p) = Some (makeLoadedSpec p d)" .
    have "e = makeLoadedSpec p d" if e: "e \<in> set (getAllSpecs specs')" "slug e = specSlug d p" for e
    proof -
      from e(1) obtain x where x: "x \<in> set specs'" "snd x = e" by (auto simp: getAllSpecs_def)
      with k have "fst x = slug e" by (auto simp: keyed_def)
      with x e(2) have "(specSlug d p, e) \<in> set specs'" by (metis prod.collapse)
      with k have "map_of specs' (specSlug d p) = Some e" by (simp add: keyed_def)
      with m show ?thesis by simp
    qed
    with m show ?thesis by blast
  qed
  from A B C show ?thesis by blast
qed

theorem registry_slugs_witness:
  "loadSpecs demoLoad [js ''a.json'', js ''b.json''] []
     = (None, snd (loadSpecs demoLoad [js ''a.json'', js ''b.json''] []))
   \<and> getSpecSlugs (snd (loadSpecs demoLoad [js ''a.json'', js ''b.json''] [])) = [js ''demo-api'']
   \<and> distinct (getSpecSlugs (snd (loadSpecs demoLoad [js ''a.json'', js ''b.json''] [])))
   \<and> specSlug demoDocB (js ''b.json'') = specSlug demoDocA (js ''a.json'')
   \<and> map_of (snd (loadSpecs demoLoad [js ''a.json'', js ''b.json''] []))
         (specSlug demoDocA (js ''a.json''))
       = Some (makeLoadedSpec (js ''a.json'') demoDocA)"
proof -
  have f: "fst (loadSpecs demoLoad [js ''a.json'', js ''b.json''] []) = None"
    by code_simp
  then have h: "loadSpecs demoLoad [js ''a.json'', js ''b.json''] []
     = (None, snd (loadSpecs demoLoad [js ''a.json'', js ''b.json''] []))"
    by (metis prod.collapse)
  have l: "demoLoad (js ''a.json'') = Inr demoDocA" by (simp add: demoLoad_def)
  have s: "getSpecSlugs (snd (loadSpecs demoLoad [js ''a.json'', js ''b.json''] []))
      = [js ''demo-api'']"
    by code_simp
  have e: "specSlug demoDocB (js ''b.json'') = specSlug demoDocA (js ''a.json'')"
    by code_simp
  have p: "[js ''a.json'', js ''b.json''] = [] @ js ''a.json'' # [js ''b.json'']" by simp
  from registry_slugs[OF h] l p
  have "distinct (getSpecSlugs (snd (loadSpecs demoLoad [js ''a.json'', js ''b.json''] [])))
     \<and> map_of (snd (loadSpecs demoLoad [js ''a.json'', js ''b.json''] []))
           (specSlug demoDocA (js ''a.json''))
       = Some (makeLoadedSpec (js ''a.json'') demoDocA)"
    by (metis empty_iff list.set(1))
  with h s e show ?thesis by simp
qed

section \<open>The listing of the registry\<close>



section \<open>loadSpecs never resolves on an empty registry\<close>



section \<open>The URI functions: decoding inverts encoding\<close>

lemma hexValue_hexDigit: "d < 16 \<Longrightarrow> hexValue (hexDigit d) = Some d"
proof -
  assume "d < 16"
  then consider "d < 10" | "10 \<le> d" "d < 16" by linarith
  then show ?thesis
  proof cases
    case 1
    then have u: "unat (of_nat (48 + d) :: jschar) = 48 + d"
      by (intro of_nat_inverse[OF refl]) simp
    have "isDigit (of_nat (48 + d))"
      using 1 u by (simp add: isDigit_def word_le_nat_alt del: of_nat_add)
    with 1 u show ?thesis by (simp add: hexValue_def hexDigit_def del: of_nat_add)
  next
    case 2
    then have u: "unat (of_nat (55 + d) :: jschar) = 55 + d"
      by (intro of_nat_inverse[OF refl]) simp
    have "\<not> isDigit (of_nat (55 + d))" "0x41 \<le> (of_nat (55 + d) :: jschar)"
      "(of_nat (55 + d) :: jschar) \<le> 0x46"
      using 2 u by (simp_all add: isDigit_def word_le_nat_alt del: of_nat_add)
    with 2 u show ?thesis by (simp add: hexValue_def hexDigit_def del: of_nat_add)
  qed
qed

lemma parseEscape_percentOctet: "b < 256 \<Longrightarrow> parseEscape (percentOctet b @ s) = Some (b, s)"
proof -
  assume b: "b < 256"
  then have "b div 16 < 16" "b mod 16 < 16" by auto
  then show ?thesis
    by (simp add: percentOctet_def hexValue_hexDigit)
qed

lemma percentOctet_head: "percentOctet b @ s = 0x25 # tl (percentOctet b @ s)"
  by (simp add: percentOctet_def)

lemma decode_escape:
  "decodeURIComponent (percentOctet b @ s) =
     (case parseEscape (percentOctet b @ s) of
        None \<Rightarrow> None
      | Some (b, rest) \<Rightarrow>
          if b < 0x80 then map_option ((#) (of_nat b)) (decodeURIComponent rest)
          else if leadingOnes b = 1 \<or> leadingOnes b > 4 then None
          else
            (case continuationOctets (leadingOnes b - 1) rest of
               None \<Rightarrow> None
             | Some (bs, rest') \<Rightarrow>
                 (case utf8CodePoint (b # bs) of
                    None \<Rightarrow> None
                  | Some v \<Rightarrow> map_option ((@) (utf16 v)) (decodeURIComponent rest'))))"
  by (subst percentOctet_head, subst decodeURIComponent.simps(2)) (simp add: percentOctet_def)

lemma continuation_one:
  "b < 0x40 \<Longrightarrow> continuationOctets (Suc n) (percentOctet (0x80 + b) @ s) =
     (case continuationOctets n s of
        None \<Rightarrow> None
      | Some (bs, rest') \<Rightarrow> Some ((0x80 + b) # bs, rest'))"
proof -
  assume b: "b < 0x40"
  then have "(0x80 + b) div 0x40 = 2" "0x80 + b < 256" by simp_all
  then show ?thesis by (simp add: parseEscape_percentOctet)
qed

lemma append_single_fun: "(@) [x] = (#) x"
  by (rule ext) simp

lemma two_level:
  "(w::nat) = q * 0x40 + r \<Longrightarrow> v = w * 0x40 + t \<Longrightarrow> q * 0x1000 + r * 0x40 + t = v"
  by simp

lemma div_4096: "(v::nat) div 0x1000 = v div 0x40 div 0x40"
proof -
  have "v div 0x1000 = v div (0x40 * 0x40)" by simp
  also have "\<dots> = v div 0x40 div 0x40" by (simp only: div_mult2_eq)
  finally show ?thesis .
qed

lemma split3: "(v div 0x1000) * 0x1000 + (v div 0x40 mod 0x40) * 0x40 + v mod 0x40 = (v::nat)"
proof -
  have "(v div 0x40 div 0x40) * 0x1000 + (v div 0x40 mod 0x40) * 0x40 + v mod 0x40 = v"
    by (rule two_level[of "v div 0x40"]) (rule div_mult_mod_eq[symmetric])+
  then show ?thesis by (simp only: div_4096)
qed

lemma three_level:
  "(x::nat) = q * 0x40 + r \<Longrightarrow> x * 0x1000 + a + b = v \<Longrightarrow>
   q * 0x40000 + r * 0x1000 + a + b = v"
  by simp

lemma div_262144: "(v::nat) div 0x40000 = v div 0x1000 div 0x40"
proof -
  have "v div 0x40000 = v div (0x1000 * 0x40)" by simp
  also have "\<dots> = v div 0x1000 div 0x40" by (simp only: div_mult2_eq)
  finally show ?thesis .
qed

lemma split4:
  "(v div 0x40000) * 0x40000 + (v div 0x1000 mod 0x40) * 0x1000 + (v div 0x40 mod 0x40) * 0x40
     + v mod 0x40 = (v::nat)"
proof -
  have "(v div 0x1000 div 0x40) * 0x40000 + (v div 0x1000 mod 0x40) * 0x1000
      + (v div 0x40 mod 0x40) * 0x40 + v mod 0x40 = v"
    by (rule three_level[of "v div 0x1000"]) (rule div_mult_mod_eq[symmetric], rule split3)
  then show ?thesis by (simp only: div_262144)
qed

text \<open>
  The escapes of the UTF-8 form of a code point that is no surrogate decode to its
  UTF-16 form: one case for each length of the UTF-8 form.
\<close>

lemma decode_utf8:
  assumes "v < 0x110000" "\<not> (0xD800 \<le> v \<and> v \<le> 0xDFFF)"
  shows "decodeURIComponent (percentOctets (utf8 v) @ s)
      = map_option ((@) (utf16 v)) (decodeURIComponent s)"
proof -
  consider (a) "v < 0x80" | (b) "0x80 \<le> v" "v < 0x800" | (c) "0x800 \<le> v" "v < 0x10000"
    | (d) "0x10000 \<le> v" by linarith
  then show ?thesis
  proof cases
    case a
    then show ?thesis
      by (simp add: utf8_def percentOctets_def decode_escape parseEscape_percentOctet utf16_def
          append_single_fun)
  next
    case b
    then have h: "0xC0 + v div 0x40 < 256" "\<not> 0xC0 + v div 0x40 < 0x80"
      "leadingOnes (0xC0 + v div 0x40) = 2"
      by (auto simp: leadingOnes_def)
    have m: "v mod 0x40 < 0x40" by simp
    have cp: "utf8CodePoint [0xC0 + v div 0x40, 0x80 + v mod 0x40] = Some v"
      using b by (simp add: utf8CodePoint_def Let_def)
    have co: "continuationOctets 1 (percentOctet (0x80 + v mod 0x40) @ s)
       = Some ([0x80 + v mod 0x40], s)"
      using continuation_one[OF m, of 0]
      by (simp del: continuationOctets.simps(2))
    from b show ?thesis
      using h cp co
      by (simp add: utf8_def percentOctets_def decode_escape parseEscape_percentOctet
          del: continuationOctets.simps)
  next
    case c
    then have h: "0xE0 + v div 0x1000 < 256" "\<not> 0xE0 + v div 0x1000 < 0x80"
      "leadingOnes (0xE0 + v div 0x1000) = 3"
      by (auto simp: leadingOnes_def)
    have m: "v mod 0x40 < 0x40" "v div 0x40 mod 0x40 < 0x40" by simp_all
    have "(v div 0x1000) * 0x1000 + (v div 0x40 mod 0x40) * 0x40 + v mod 0x40 = v"
      by (rule split3)
    then have cp: "utf8CodePoint [0xE0 + v div 0x1000, 0x80 + v div 0x40 mod 0x40, 0x80 + v mod 0x40]
        = Some v"
      using c assms by (simp add: utf8CodePoint_def Let_def)
    have co: "continuationOctets 2
         (percentOctet (0x80 + v div 0x40 mod 0x40) @ percentOctet (0x80 + v mod 0x40) @ s)
       = Some ([0x80 + v div 0x40 mod 0x40, 0x80 + v mod 0x40], s)"
      using continuation_one[OF m(2), of 1] continuation_one[OF m(1), of 0]
      by (simp add: numeral_2_eq_2 del: continuationOctets.simps(2))
    from c show ?thesis
      using h cp co
      by (simp add: utf8_def percentOctets_def decode_escape parseEscape_percentOctet
          del: continuationOctets.simps)
  next
    case d
    with assms have h: "0xF0 + v div 0x40000 < 256" "\<not> 0xF0 + v div 0x40000 < 0x80"
      "leadingOnes (0xF0 + v div 0x40000) = 4"
      by (auto simp: leadingOnes_def)
    have m: "v mod 0x40 < 0x40" "v div 0x40 mod 0x40 < 0x40" "v div 0x1000 mod 0x40 < 0x40"
      by simp_all
    have "(v div 0x40000) * 0x40000 + (v div 0x1000 mod 0x40) * 0x1000
        + (v div 0x40 mod 0x40) * 0x40 + v mod 0x40 = v"
      by (rule split4)
    then have cp: "utf8CodePoint [0xF0 + v div 0x40000, 0x80 + v div 0x1000 mod 0x40,
          0x80 + v div 0x40 mod 0x40, 0x80 + v mod 0x40] = Some v"
      using d assms by (simp add: utf8CodePoint_def Let_def)
    have co: "continuationOctets 3
         (percentOctet (0x80 + v div 0x1000 mod 0x40) @ percentOctet (0x80 + v div 0x40 mod 0x40)
            @ percentOctet (0x80 + v mod 0x40) @ s)
       = Some ([0x80 + v div 0x1000 mod 0x40, 0x80 + v div 0x40 mod 0x40, 0x80 + v mod 0x40], s)"
      using continuation_one[OF m(3), of 2] continuation_one[OF m(2), of 1]
        continuation_one[OF m(1), of 0]
      by (simp add: numeral_3_eq_3 numeral_2_eq_2 del: continuationOctets.simps(2))
    from d show ?thesis
      using h cp co
      by (simp add: utf8_def percentOctets_def decode_escape parseEscape_percentOctet
          del: continuationOctets.simps)
  qed
qed

lemma unreserved_not_percent: "isUnreserved c \<Longrightarrow> c \<noteq> 0x25"
  by (auto simp: isUnreserved_def isUpper_def isLower_def isDigit_def)

lemma unreserved_not_surrogate:
  "isUnreserved c \<Longrightarrow> \<not> isHighSurrogate c \<and> \<not> isLowSurrogate c"
  by (auto simp: isUnreserved_def isUpper_def isLower_def isDigit_def isHighSurrogate_def
      isLowSurrogate_def word_le_nat_alt)

lemma high_not_low: "isHighSurrogate c \<Longrightarrow> \<not> isLowSurrogate c"
  by (simp add: isHighSurrogate_def isLowSurrogate_def word_le_nat_alt)

lemma utf16_unit: "utf16 (unat (c::jschar)) = [c]"
proof -
  have "unat c < 0x10000" using unsigned_less[of c] by simp
  then show ?thesis by (simp add: utf16_def)
qed

lemma unit_scalar:
  "\<not> isHighSurrogate c \<Longrightarrow> \<not> isLowSurrogate c \<Longrightarrow>
   unat c < 0x110000 \<and> \<not> (0xD800 \<le> unat c \<and> unat c \<le> 0xDFFF)"
proof -
  assume "\<not> isHighSurrogate c" "\<not> isLowSurrogate c"
  moreover have "unat c < 0x10000" using unsigned_less[of c] by simp
  ultimately show ?thesis
    by (auto simp: isHighSurrogate_def isLowSurrogate_def word_le_nat_alt)
qed

lemma pair_scalar:
  assumes "isHighSurrogate c" "isLowSurrogate d"
  shows "pairCodePoint c d < 0x110000"
    "\<not> (0xD800 \<le> pairCodePoint c d \<and> pairCodePoint c d \<le> 0xDFFF)"
    "utf16 (pairCodePoint c d) = [c, d]"
proof -
  from assms have hc: "0xD800 \<le> unat c" "unat c \<le> 0xDBFF"
    and hd: "0xDC00 \<le> unat d" "unat d \<le> 0xDFFF"
    by (simp_all add: isHighSurrogate_def isLowSurrogate_def word_le_nat_alt)
  define a where "a = unat c - 0xD800"
  define b where "b = unat d - 0xDC00"
  have ab: "a < 0x400" "b < 0x400" "unat c = 0xD800 + a" "unat d = 0xDC00 + b"
    using hc hd by (simp_all add: a_def b_def)
  have v: "pairCodePoint c d = a * 0x400 + b + 0x10000"
    by (simp add: pairCodePoint_def a_def b_def)
  show "pairCodePoint c d < 0x110000" using ab v by simp
  show "\<not> (0xD800 \<le> pairCodePoint c d \<and> pairCodePoint c d \<le> 0xDFFF)" using v by simp
  have "(a * 0x400 + b) div 0x400 = a" "(a * 0x400 + b) mod 0x400 = b" using ab by simp_all
  then have "utf16 (pairCodePoint c d) = [of_nat (0xD800 + a), of_nat (0xDC00 + b)]"
    by (simp add: utf16_def v del: of_nat_add)
  also have "\<dots> = [of_nat (unat c), of_nat (unat d)]" by (simp only: ab)
  finally show "utf16 (pairCodePoint c d) = [c, d]" by simp
qed

lemma decode_unreserved:
  "isUnreserved c \<Longrightarrow> decodeURIComponent (c # s) = map_option ((#) c) (decodeURIComponent s)"
  by (simp add: unreserved_not_percent)

lemma decode_encode: "encodeURIComponent s = Some e \<Longrightarrow> decodeURIComponent e = Some s"
proof (induction s arbitrary: e rule: encodeURIComponent.induct)
  case 1
  then show ?case by simp
next
  case (2 c)
  show ?case
  proof (cases "isUnreserved c")
    case True
    with 2 have "e = [c]" by simp
    with True show ?thesis by (simp add: unreserved_not_percent)
  next
    case False
    with 2 have ns: "\<not> isHighSurrogate c" "\<not> isLowSurrogate c"
      and e: "e = percentOctets (utf8 (unat c)) @ []" by (auto split: if_splits)
    from unit_scalar[OF ns] show ?thesis
      unfolding e by (subst decode_utf8) (simp_all add: utf16_unit)
  qed
next
  case (3 c d ds)
  show ?case
  proof (cases "isUnreserved c")
    case True
    with 3(4) obtain e' where e': "encodeURIComponent (d # ds) = Some e'" "e = c # e'"
      by auto
    from 3(1)[OF True e'(1)] True e'(2) show ?thesis
      by (simp add: decode_unreserved del: decodeURIComponent.simps(2))
  next
    case False
    note nu = False
    from 3(4) nu have nl: "\<not> isLowSurrogate c" by (auto split: if_splits)
    show ?thesis
    proof (cases "isHighSurrogate c")
      case True
      with 3(4) nu nl have ld: "isLowSurrogate d" by (auto split: if_splits)
      with 3(4) nu nl True obtain e' where e': "encodeURIComponent ds = Some e'"
        "e = percentOctets (utf8 (pairCodePoint c d)) @ e'" by auto
      from 3(2)[OF nu nl True ld e'(1)] have "decodeURIComponent e' = Some ds" .
      with pair_scalar[OF True ld] show ?thesis
        unfolding e'(2) by (subst decode_utf8) simp_all
    next
      case False
      with 3(4) nu nl obtain e' where e': "encodeURIComponent (d # ds) = Some e'"
        "e = percentOctets (utf8 (unat c)) @ e'" by auto
      from 3(3)[OF nu nl False e'(1)] have "decodeURIComponent e' = Some (d # ds)" .
      with unit_scalar[OF False nl] show ?thesis
        unfolding e'(2) by (subst decode_utf8) (simp_all add: utf16_unit)
    qed
  qed
qed

lemma encode_total: "isWellFormed s \<Longrightarrow> \<exists>e. encodeURIComponent s = Some e"
  by (induction s rule: encodeURIComponent.induct)
     (auto dest: unreserved_not_surrogate high_not_low)

lemma slash_not_surrogate: "\<not> isHighSurrogate 0x2F" "\<not> isLowSurrogate 0x2F"
  by (simp_all add: isHighSurrogate_def isLowSurrogate_def)

lemma encode_wellFormed: "encodeURIComponent s = Some e \<Longrightarrow> isWellFormed s"
  by (induction s arbitrary: e rule: encodeURIComponent.induct)
     (auto dest: unreserved_not_surrogate split: if_splits)

lemma wellFormed_slash: "isWellFormed (0x2F # s) = isWellFormed s"
  by (cases s) (simp_all add: slash_not_surrogate)

lemma wellFormed_strip: "isWellFormed (dropWhile (\<lambda>c. c = 0x2F) s) = isWellFormed s"
  by (induction s) (simp_all add: wellFormed_slash)

lemma lookupPath_no_slash: "s = [] \<or> hd s \<noteq> 0x2F \<Longrightarrow> lookupPath s = 0x2F # s"
  by (cases s) (auto simp: lookupPath_def)

lemma lookupPath_strip:
  "lookupPath (dropWhile (\<lambda>c. c = 0x2F) p) = 0x2F # dropWhile (\<lambda>c. c = 0x2F) p"
  by (rule lookupPath_no_slash) (use hd_dropWhile[of "\<lambda>c. c = 0x2F" p] in blast)

lemma lookupPath_single:
  "\<not> prefix [0x2F, 0x2F] p \<Longrightarrow> 0x2F # dropWhile (\<lambda>c. c = 0x2F) p = lookupPath p"
proof (cases p)
  case Nil
  then show ?thesis by (simp add: lookupPath_def)
next
  case (Cons a as)
  assume np: "\<not> prefix [0x2F, 0x2F] p"
  show ?thesis
  proof (cases "a = 0x2F")
    case True
    with np Cons have "as = [] \<or> hd as \<noteq> 0x2F" by (cases as) auto
    then have "dropWhile (\<lambda>c. c = 0x2F) as = as" by (cases as) auto
    with True Cons show ?thesis by (simp add: lookupPath_def)
  next
    case False
    with Cons show ?thesis by (simp add: lookupPath_def)
  qed
qed

text \<open>
  Claim C2, as stated: for every path string, decoding its encoded form and prefixing one
  slash gives the normalized form of the path. It fails on a string with a lone
  surrogate, which \<open>encodeURIComponent\<close> rejects with a \<open>URIError\<close>, and on a path with
  two leading slashes: \<open>//users\<close> is encoded as \<open>users\<close>, which comes back as \<open>/users\<close>,
  while the handler's normalization leaves \<open>//users\<close> as it is.
\<close>

theorem path_roundtrip_counterexample:
  "encodeUriPathComponent [0xD800] = None
   \<and> encodeUriPathComponent (js ''//users'') = Some (js ''users'')
   \<and> map_option lookupPath (decodeURIComponent (js ''users'')) = Some (js ''/users'')
   \<and> lookupPath (js ''//users'') = js ''//users''
   \<and> js ''/users'' \<noteq> js ''//users''"
  by code_simp

text \<open>
  Claim C2, amended. For every well-formed path string (no lone surrogate), the encoding
  succeeds, and decoding the encoded form and prefixing a slash where there is none gives
  a slash followed by the path without its leading slashes. Where the path does not
  start with two slashes, that is the normalized form of the path: the path itself if
  it starts with a slash, the path after one slash otherwise. For a path string that is
  not well-formed the encoding throws.
\<close>

theorem path_roundtrip:
  "(isWellFormed p \<longrightarrow>
      (\<exists>e. encodeUriPathComponent p = Some e
        \<and> map_option lookupPath (decodeURIComponent e)
            = Some (0x2F # dropWhile (\<lambda>c. c = 0x2F) p)
        \<and> (\<not> prefix [0x2F, 0x2F] p \<longrightarrow>
              map_option lookupPath (decodeURIComponent e) = Some (lookupPath p))))
   \<and> (\<not> isWellFormed p \<longrightarrow> encodeUriPathComponent p = None)"
proof -
  have a: "\<exists>e. encodeUriPathComponent p = Some e
        \<and> map_option lookupPath (decodeURIComponent e)
            = Some (0x2F # dropWhile (\<lambda>c. c = 0x2F) p)
        \<and> (\<not> prefix [0x2F, 0x2F] p \<longrightarrow>
              map_option lookupPath (decodeURIComponent e) = Some (lookupPath p))"
    if w: "isWellFormed p"
  proof -
    from w have "isWellFormed (dropWhile (\<lambda>c. c = 0x2F) p)" by (simp add: wellFormed_strip)
    from encode_total[OF this]
    obtain e where e: "encodeUriPathComponent p = Some e"
      by (auto simp: encodeUriPathComponent_def)
    then have "decodeURIComponent e = Some (dropWhile (\<lambda>c. c = 0x2F) p)"
      by (simp add: encodeUriPathComponent_def decode_encode)
    then have "map_option lookupPath (decodeURIComponent e)
        = Some (0x2F # dropWhile (\<lambda>c. c = 0x2F) p)"
      by (simp add: lookupPath_strip)
    with e show ?thesis by (auto simp: lookupPath_single)
  qed
  have b: "encodeUriPathComponent p = None" if nw: "\<not> isWellFormed p"
  proof (rule ccontr)
    assume "encodeUriPathComponent p \<noteq> None"
    then obtain e where "encodeURIComponent (dropWhile (\<lambda>c. c = 0x2F) p) = Some e"
      by (auto simp: encodeUriPathComponent_def)
    from encode_wellFormed[OF this] nw show False by (simp add: wellFormed_strip)
  qed
  from a b show ?thesis by blast
qed

theorem path_roundtrip_witness:
  "isWellFormed (js ''/users/{id}'')
   \<and> \<not> prefix [0x2F, 0x2F] (js ''/users/{id}'')
   \<and> encodeUriPathComponent (js ''/users/{id}'') = Some (js ''users%2F%7Bid%7D'')
   \<and> map_option lookupPath (decodeURIComponent (js ''users%2F%7Bid%7D''))
       = Some (lookupPath (js ''/users/{id}''))
   \<and> lookupPath (js ''/users/{id}'') = js ''/users/{id}''
   \<and> \<not> isWellFormed [0xD800]
   \<and> encodeUriPathComponent [0xD800] = None"
proof -
  have w: "isWellFormed (js ''/users/{id}'')" by code_simp
  have n: "\<not> prefix [0x2F, 0x2F] (js ''/users/{id}'')" by (simp add: js_def)
  have e: "encodeUriPathComponent (js ''/users/{id}'') = Some (js ''users%2F%7Bid%7D'')"
    by code_simp
  have l: "lookupPath (js ''/users/{id}'') = js ''/users/{id}''"
    by (simp add: lookupPath_def js_def)
  have s: "\<not> isWellFormed [0xD800]" by code_simp
  from path_roundtrip[of "js ''/users/{id}''"] w e n
  have r: "map_option lookupPath (decodeURIComponent (js ''users%2F%7Bid%7D''))
       = Some (lookupPath (js ''/users/{id}''))"
    by auto
  from path_roundtrip[of "[0xD800]"] s
  have "encodeUriPathComponent [0xD800] = None" by blast
  with w n e l s r show ?thesis by simp
qed

section \<open>The component handlers\<close>

lemma finish_error:
  "finish context href suf (Inl (Error message), evs) =
     ([\<lparr> uri = baseUri context @ specId context @ js ''/'' @ suf, mimeType = js ''text/plain'',
         itemText = message, isError = Some True \<rparr>],
      evs @ [ConsoleError (consoleMessage href message)])"
  by (simp add: finish_def formatResults_def formatItem_def createErrorResult_def)

lemma sample_loadDocument:
  "loadDocument sampleServices (js ''test-api'') = (Inr sampleSpec, sampleEvents sampleSpec)"
  by code_simp

text \<open>
  Claim C3: a component list or component detail request whose type is not in the
  allow-list is answered by the one error item \<open>Invalid component type: ...\<close>, and the
  handler has made no call at all before it logs the error: in particular
  \<open>getTransformedSpec\<close> is not invoked.
\<close>

theorem invalid_component_type_short_circuit:
  assumes "type \<notin> set VALID_COMPONENT_TYPES"
  shows "componentMapHandleRequest sv href sid type
       = ([\<lparr> uri = js ''openapi://'' @ sid @ js ''/'' @ js ''components/'' @ type,
             mimeType = js ''text/plain'',
             itemText = js ''Invalid component type: '' @ type,
             isError = Some True \<rparr>],
          [ConsoleError (consoleMessage href (js ''Invalid component type: '' @ type))])
    \<and> componentDetailHandleRequest sv href sid type nameVar
       = ([\<lparr> uri = js ''openapi://'' @ sid @ js ''/'' @ componentDetailErrorSuffix type nameVar,
             mimeType = js ''text/plain'',
             itemText = js ''Invalid component type: '' @ type,
             isError = Some True \<rparr>],
          [ConsoleError (consoleMessage href (js ''Invalid component type: '' @ type))])
    \<and> (\<forall>ld. GetTransformedSpecCall ld \<notin> set (snd (componentMapHandleRequest sv href sid type)))
    \<and> (\<forall>ld. GetTransformedSpecCall ld
                \<notin> set (snd (componentDetailHandleRequest sv href sid type nameVar)))"
  using assms
  by (simp add: componentMapHandleRequest_def componentMapTry_def componentDetailHandleRequest_def
      componentDetailTry_def finish_error makeContext_def BASE_URI_def)

theorem invalid_component_type_short_circuit_witness:
  "js ''invalidType'' \<notin> set VALID_COMPONENT_TYPES
   \<and> componentMapHandleRequest sampleServices (js ''openapi://test-api/components/invalidType'')
        (js ''test-api'') (js ''invalidType'')
       = ([\<lparr> uri = js ''openapi://test-api/components/invalidType'',
             mimeType = js ''text/plain'',
             itemText = js ''Invalid component type: invalidType'',
             isError = Some True \<rparr>],
          [ConsoleError (js ''Error handling request openapi://test-api/components/invalidType: Invalid component type: invalidType'')])"
proof -
  have h: "js ''invalidType'' \<notin> set VALID_COMPONENT_TYPES" by code_simp
  from invalid_component_type_short_circuit[OF h, of sampleServices
      "js ''openapi://test-api/components/invalidType''" "js ''test-api''" None] h
  show ?thesis by (simp add: js_def consoleMessage_def)
qed

lemma messages_differ:
  "js ''Component type \"'' @ t @ js ''\" not found in the specification. Available types: '' @ a
   \<noteq> js ''No components of type \"'' @ t' @ js ''\" found.''"
  by (simp add: js_def)

text \<open>
  Claim C4: for a component list request with a valid type on a loaded document, a type
  without a key in \<open>components\<close> is answered by the error item \<open>Component type ... not
  found in the specification\<close>, which lists the available types; a type whose key holds an
  empty collection is answered by the error item \<open>No components of type ... found.\<close>; and
  the two messages are different strings.
\<close>

theorem component_list_missing_or_empty:
  assumes "type \<in> set VALID_COMPONENT_TYPES" "loadDocument sv sid = (Inr doc, evs)"
  shows "(map_of (case components doc of None \<Rightarrow> [] | Some cs \<Rightarrow> cs) type = None \<longrightarrow>
          fst (componentMapHandleRequest sv href sid type)
          = [\<lparr> uri = js ''openapi://'' @ sid @ js ''/'' @ js ''components/'' @ type,
               mimeType = js ''text/plain'',
               itemText = js ''Component type \"'' @ type
                 @ js ''\" not found in the specification. Available types: ''
                 @ join (js '', '') (map fst (case components doc of None \<Rightarrow> [] | Some cs \<Rightarrow> cs)),
               isError = Some True \<rparr>])
      \<and> (map_of (case components doc of None \<Rightarrow> [] | Some cs \<Rightarrow> cs) type = Some [] \<longrightarrow>
          fst (componentMapHandleRequest sv href sid type)
          = [\<lparr> uri = js ''openapi://'' @ sid @ js ''/'' @ js ''components/'' @ type,
               mimeType = js ''text/plain'',
               itemText = js ''No components of type \"'' @ type @ js ''\" found.'',
               isError = Some True \<rparr>])
      \<and> js ''Component type \"'' @ type
                 @ js ''\" not found in the specification. Available types: ''
                 @ join (js '', '') (map fst (case components doc of None \<Rightarrow> [] | Some cs \<Rightarrow> cs))
          \<noteq> js ''No components of type \"'' @ type @ js ''\" found.''"
proof -
  have a: "fst (componentMapHandleRequest sv href sid type)
          = [\<lparr> uri = js ''openapi://'' @ sid @ js ''/'' @ js ''components/'' @ type,
               mimeType = js ''text/plain'',
               itemText = js ''Component type \"'' @ type
                 @ js ''\" not found in the specification. Available types: ''
                 @ join (js '', '') (map fst (case components doc of None \<Rightarrow> [] | Some cs \<Rightarrow> cs)),
               isError = Some True \<rparr>]"
    if "map_of (case components doc of None \<Rightarrow> [] | Some cs \<Rightarrow> cs) type = None"
    using that assms
    by (simp add: componentMapHandleRequest_def componentMapTry_def getValidatedComponentMap_def
        finish_error makeContext_def BASE_URI_def Let_def)
  have b: "fst (componentMapHandleRequest sv href sid type)
          = [\<lparr> uri = js ''openapi://'' @ sid @ js ''/'' @ js ''components/'' @ type,
               mimeType = js ''text/plain'',
               itemText = js ''No components of type \"'' @ type @ js ''\" found.'',
               isError = Some True \<rparr>]"
    if "map_of (case components doc of None \<Rightarrow> [] | Some cs \<Rightarrow> cs) type = Some []"
    using that assms
    by (simp add: componentMapHandleRequest_def componentMapTry_def getValidatedComponentMap_def
        componentMapRenderList_def finish_def formatResults_def formatItem_def createErrorResult_def
        makeContext_def BASE_URI_def Let_def)
  from a b messages_differ show ?thesis by blast
qed

theorem component_list_missing_or_empty_witness:
  "js ''securitySchemes'' \<in> set VALID_COMPONENT_TYPES
   \<and> js ''examples'' \<in> set VALID_COMPONENT_TYPES
   \<and> loadDocument sampleServices (js ''test-api'') = (Inr sampleSpec, sampleEvents sampleSpec)
   \<and> map_of (case components sampleSpec of None \<Rightarrow> [] | Some cs \<Rightarrow> cs) (js ''securitySchemes'') = None
   \<and> map_of (case components sampleSpec of None \<Rightarrow> [] | Some cs \<Rightarrow> cs) (js ''examples'') = Some []
   \<and> fst (componentMapHandleRequest sampleServices [] (js ''test-api'') (js ''securitySchemes''))
       = [\<lparr> uri = js ''openapi://test-api/components/securitySchemes'',
            mimeType = js ''text/plain'',
            itemText = js ''Component type \"securitySchemes\" not found in the specification. Available types: schemas, examples'',
            isError = Some True \<rparr>]
   \<and> fst (componentMapHandleRequest sampleServices [] (js ''test-api'') (js ''examples''))
       = [\<lparr> uri = js ''openapi://test-api/components/examples'',
            mimeType = js ''text/plain'',
            itemText = js ''No components of type \"examples\" found.'',
            isError = Some True \<rparr>]"
proof -
  have v: "js ''securitySchemes'' \<in> set VALID_COMPONENT_TYPES"
    "js ''examples'' \<in> set VALID_COMPONENT_TYPES" by code_simp+
  have m: "map_of (case components sampleSpec of None \<Rightarrow> [] | Some cs \<Rightarrow> cs) (js ''securitySchemes'') = None"
    "map_of (case components sampleSpec of None \<Rightarrow> [] | Some cs \<Rightarrow> cs) (js ''examples'') = Some []"
    by code_simp+
  have c: "map fst (case components sampleSpec of None \<Rightarrow> [] | Some cs \<Rightarrow> cs)
      = [js ''schemas'', js ''examples'']"
    by (simp add: sampleSpec_def)
  from component_list_missing_or_empty[OF v(1) sample_loadDocument, of "[]"]
    component_list_missing_or_empty[OF v(2) sample_loadDocument, of "[]"]
    v m sample_loadDocument
  show ?thesis unfolding c by (simp add: js_def)
qed

section \<open>The path handlers\<close>

lemma declared_set: "set (declaredMethods pathItem) = fst ` set pathItem \<inter> set canonicalMethods"
  by (auto simp: declaredMethods_def)

lemma canonical_distinct: "distinct canonicalMethods"
  by code_simp

text \<open>
  Claim C5: the declared methods of a path item are the keys of the item that are
  canonical methods, in canonical order and without repetition; they depend on the set
  of keys only, not on the order of the keys in the document, so that the keys \<open>post, get\<close>
  are listed as \<open>get, post\<close>. The listing of a path item has one line for each declared
  method in that order, and the error for a request without a valid method lists the
  declared methods in that order.
\<close>

theorem declared_methods_canonical_order:
  "set (declaredMethods pathItem) = fst ` set pathItem \<inter> set canonicalMethods
   \<and> subseq (declaredMethods pathItem) canonicalMethods
   \<and> distinct (declaredMethods pathItem)
   \<and> (fst ` set pathItem = fst ` set pathItem' \<longrightarrow> declaredMethods pathItem = declaredMethods pathItem')
   \<and> declaredMethods [(js ''post'', a), (js ''get'', b)] = [js ''get'', js ''post'']
   \<and> (\<forall>hint. generateListHint context
                \<lparr> itemType = pathMethod, firstItemExample = Some (hd (declaredMethods pathItem)),
                  parentComponentType = None, parentPath = Some path \<rparr> = Inr hint
          \<and> declaredMethods pathItem \<noteq> [] \<longrightarrow>
        pathItemRenderList context pathItem path suf
          = Inr [\<lparr> uriSuffix = suf,
                    data = Some (JStr (join (js [CHR 0x0A])
                                         (map (methodLine pathItem) (declaredMethods pathItem))
                                       @ js [CHR 0x0A] @ hint)),
                    isErrorItem = False, errorText = None, renderAsList = True \<rparr>])
   \<and> (\<forall>methods. (\<forall>m \<in> set methods. m \<notin> set (declaredMethods pathItem)) \<longrightarrow>
        getValidatedOperations pathItem methods path
          = Inl (Error (js ''None of the requested methods ('' @ join (js '', '') methods
                          @ js '') are valid for path \"'' @ path
                          @ js ''\". Available methods: ''
                          @ join (js '', '') (declaredMethods pathItem))))"
proof -
  have a: "subseq (declaredMethods pathItem) canonicalMethods"
    by (simp add: declaredMethods_def)
  have b: "distinct (declaredMethods pathItem)"
    using canonical_distinct by (simp add: declaredMethods_def)
  have c: "fst ` set pathItem = fst ` set pathItem'
      \<longrightarrow> declaredMethods pathItem = declaredMethods pathItem'"
    by (simp add: declaredMethods_def)
  have d: "declaredMethods [(js ''post'', a), (js ''get'', b)] = [js ''get'', js ''post'']"
    by (simp add: declaredMethods_def canonicalMethods_def js_def)
  have e: "getValidatedOperations pathItem methods path
          = Inl (Error (js ''None of the requested methods ('' @ join (js '', '') methods
                          @ js '') are valid for path \"'' @ path
                          @ js ''\". Available methods: ''
                          @ join (js '', '') (declaredMethods pathItem)))"
    if "\<forall>m \<in> set methods. m \<notin> set (declaredMethods pathItem)" for methods
  proof -
    from that have "filter (\<lambda>m. m \<in> set (declaredMethods pathItem)) methods = []"
      by (simp add: filter_empty_conv)
    then show ?thesis by (simp add: getValidatedOperations_def Let_def)
  qed
  have f: "pathItemRenderList context pathItem path suf
          = Inr [\<lparr> uriSuffix = suf,
                    data = Some (JStr (join (js [CHR 0x0A])
                                         (map (methodLine pathItem) (declaredMethods pathItem))
                                       @ js [CHR 0x0A] @ hint)),
                    isErrorItem = False, errorText = None, renderAsList = True \<rparr>]"
    if "generateListHint context
                \<lparr> itemType = pathMethod, firstItemExample = Some (hd (declaredMethods pathItem)),
                  parentComponentType = None, parentPath = Some path \<rparr> = Inr hint"
       "declaredMethods pathItem \<noteq> []" for hint
    using that by (simp add: pathItemRenderList_def)
  from declared_set a b c d e f show ?thesis by blast
qed

theorem declared_methods_canonical_order_witness:
  "fst ` set [(js ''post'', postOperation), (js ''get'', getOperation)]
     = fst ` set [(js ''get'', getOperation), (js ''post'', postOperation)]
   \<and> declaredMethods [(js ''post'', postOperation), (js ''get'', getOperation)]
     = declaredMethods [(js ''get'', getOperation), (js ''post'', postOperation)]
   \<and> declaredMethods [(js ''post'', postOperation), (js ''get'', getOperation)]
     = [js ''get'', js ''post'']
   \<and> map (methodLine [(js ''post'', postOperation), (js ''get'', getOperation)])
        (declaredMethods [(js ''post'', postOperation), (js ''get'', getOperation)])
     = [js ''GET: Get Item'', js ''POST: Create Item'']
   \<and> getValidatedOperations [(js ''post'', postOperation), (js ''get'', getOperation)]
        [js ''put''] (js ''/reversed'')
     = Inl (Error (js ''None of the requested methods (put) are valid for path \"/reversed\". Available methods: get, post''))
   \<and> pathItemHandleRequest sampleServices [] (js ''test-api'') (Some (js ''reversed''))
     = Inr ([\<lparr> uri = js ''openapi://test-api/paths/reversed'',
                mimeType = js ''text/plain'',
                itemText = js ''GET: Get Item'' @ [0x0A] @ js ''POST: Create Item'' @ [0x0A, 0x0A]
                  @ js ''Hint: Use '' @ [0x27] @ js ''openapi://test-api/paths/reversed/{method}''
                  @ [0x27] @ js '' to view details for a specific operation.''
                  @ js '' (e.g., openapi://test-api/paths/reversed/get)'',
                isError = Some False \<rparr>],
            sampleEvents sampleSpec)"
proof -
  have h: "pathItemHandleRequest sampleServices [] (js ''test-api'') (Some (js ''reversed''))
     = Inr ([\<lparr> uri = js ''openapi://test-api/paths/reversed'',
                mimeType = js ''text/plain'',
                itemText = js ''GET: Get Item'' @ [0x0A] @ js ''POST: Create Item'' @ [0x0A, 0x0A]
                  @ js ''Hint: Use '' @ [0x27] @ js ''openapi://test-api/paths/reversed/{method}''
                  @ [0x27] @ js '' to view details for a specific operation.''
                  @ js '' (e.g., openapi://test-api/paths/reversed/get)'',
                isError = Some False \<rparr>],
            sampleEvents sampleSpec)"
    by code_simp
  have s: "fst ` set [(js ''post'', postOperation), (js ''get'', getOperation)]
     = fst ` set [(js ''get'', getOperation), (js ''post'', postOperation)]"
    by auto
  have l: "map (methodLine [(js ''post'', postOperation), (js ''get'', getOperation)])
        [js ''get'', js ''post''] = [js ''GET: Get Item'', js ''POST: Create Item'']"
    by code_simp
  have n: "\<forall>m \<in> set [js ''put'']. m \<notin> set [js ''get'', js ''post'']"
    by (simp add: js_def)
  from declared_methods_canonical_order[of "[(js ''post'', postOperation), (js ''get'', getOperation)]"
      "[(js ''get'', getOperation), (js ''post'', postOperation)]" postOperation getOperation
      undefined "js ''/reversed''" undefined] s
  have d: "declaredMethods [(js ''post'', postOperation), (js ''get'', getOperation)]
       = declaredMethods [(js ''get'', getOperation), (js ''post'', postOperation)]"
    "declaredMethods [(js ''post'', postOperation), (js ''get'', getOperation)]
       = [js ''get'', js ''post'']"
    and g: "\<forall>methods. (\<forall>m \<in> set methods. m \<notin> set (declaredMethods
              [(js ''post'', postOperation), (js ''get'', getOperation)])) \<longrightarrow>
        getValidatedOperations [(js ''post'', postOperation), (js ''get'', getOperation)]
            methods (js ''/reversed'')
          = Inl (Error (js ''None of the requested methods ('' @ join (js '', '') methods
                          @ js '') are valid for path \"'' @ js ''/reversed''
                          @ js ''\". Available methods: ''
                          @ join (js '', '') (declaredMethods
                              [(js ''post'', postOperation), (js ''get'', getOperation)])))"
    by blast+
  from g[rule_format, of "[js ''put'']"] n d(2)
  have "getValidatedOperations [(js ''post'', postOperation), (js ''get'', getOperation)]
        [js ''put''] (js ''/reversed'')
     = Inl (Error (js ''None of the requested methods (put) are valid for path \"/reversed\". Available methods: get, post''))"
    by (simp add: js_def)
  with s d l h show ?thesis by simp
qed








section \<open>The completion callbacks\<close>

text \<open>
  Claim C8, as stated: the candidates for the component type are exactly the categories
  that are present and not empty. The callback answers every key of \<open>components\<close>: the
  sample document, whose category \<open>examples\<close> is empty, gets \<open>schemas\<close> and \<open>examples\<close>.
\<close>

theorem type_completion_counterexample:
  "typeCompletion sampleServices = [js ''schemas'', js ''examples'']
   \<and> nonEmptyCategories sampleSpec = [js ''schemas'']
   \<and> loadDocument sampleServices (js ''test-api'') = (Inr sampleSpec, sampleEvents sampleSpec)"
  by code_simp

text \<open>
  Claim C8, amended. The candidates for the component type are the keys of \<open>components\<close>
  of the first loaded spec, in the order of the document, whether their collections are
  empty or not; so every category that is not empty is among them. They are the empty
  sequence where no spec is loaded, where that spec cannot be loaded as an OpenAPI v3
  document, and where it has no \<open>components\<close>.
\<close>

theorem type_completion_all_keys:
  "(getSpecSlugs (specManager sv) = [] \<longrightarrow> typeCompletion sv = [])
   \<and> (\<forall>s rest doc evs. getSpecSlugs (specManager sv) = s # rest
          \<and> loadDocument sv s = (Inr doc, evs) \<longrightarrow>
        typeCompletion sv = (case components doc of None \<Rightarrow> [] | Some cs \<Rightarrow> map fst cs)
        \<and> set (nonEmptyCategories doc) \<subseteq> set (typeCompletion sv))
   \<and> (\<forall>s rest e evs. getSpecSlugs (specManager sv) = s # rest
          \<and> loadDocument sv s = (Inl e, evs) \<longrightarrow> typeCompletion sv = [])"
  by (auto simp: typeCompletion_def getSpecComponentTypes_def nonEmptyCategories_def
      split: option.splits)

theorem type_completion_all_keys_witness:
  "getSpecSlugs (specManager sampleServices) = [js ''test-api'']
   \<and> loadDocument sampleServices (js ''test-api'') = (Inr sampleSpec, sampleEvents sampleSpec)
   \<and> typeCompletion sampleServices
       = (case components sampleSpec of None \<Rightarrow> [] | Some cs \<Rightarrow> map fst cs)
   \<and> set (nonEmptyCategories sampleSpec) \<subseteq> set (typeCompletion sampleServices)"
proof -
  have s: "getSpecSlugs (specManager sampleServices) = [js ''test-api'']" by code_simp
  from type_completion_all_keys[of sampleServices] s sample_loadDocument
  show ?thesis by blast
qed

text \<open>
  Claim C7, as stated: names are offered exactly where the spec has one non-empty
  component category. The callback counts the keys of \<open>components\<close>, empty or not: the
  sample document has one non-empty category, \<open>schemas\<close> with the name \<open>User\<close>, and the
  empty category \<open>examples\<close>, and gets no candidate.
\<close>

theorem name_completion_counterexample:
  "nonEmptyCategories sampleSpec = [js ''schemas'']
   \<and> getValidatedComponentMap sampleSpec (js ''schemas'')
       = Inr [(js ''User'', JObj [(js ''type'', JStr (js ''object''))])]
   \<and> getSpecSlugs (specManager sampleServices) = [js ''test-api'']
   \<and> loadDocument sampleServices (js ''test-api'') = (Inr sampleSpec, sampleEvents sampleSpec)
   \<and> nameCompletion sampleServices = []"
  by code_simp

text \<open>
  Claim C7, amended. The candidates for the name are not empty only where exactly one
  spec is loaded and \<open>components\<close> of its document has exactly one key, empty or not; the
  candidates are then every name within that category. Where no spec or more than one
  is loaded, where the document cannot be loaded as an OpenAPI v3 document, and where
  \<open>components\<close> is absent or has no key or more than one, the result is the empty sequence.
\<close>

theorem name_completion_single_key:
  "(length (getSpecSlugs (specManager sv)) \<noteq> 1 \<longrightarrow> nameCompletion sv = [])
   \<and> (\<forall>s doc evs. getSpecSlugs (specManager sv) = [s] \<and> loadDocument sv s = (Inr doc, evs) \<longrightarrow>
        (\<forall>t m. components doc = Some [(t, m)] \<longrightarrow> nameCompletion sv = map fst m)
        \<and> (\<forall>cs. components doc = Some cs \<and> length cs \<noteq> 1 \<longrightarrow> nameCompletion sv = [])
        \<and> (components doc = None \<longrightarrow> nameCompletion sv = []))
   \<and> (\<forall>s e evs. getSpecSlugs (specManager sv) = [s] \<and> loadDocument sv s = (Inl e, evs) \<longrightarrow>
        nameCompletion sv = [])"
proof -
  have a: "nameCompletion sv = []" if "length (getSpecSlugs (specManager sv)) \<noteq> 1"
    using that by (auto simp: nameCompletion_def split: list.splits)
  have b: "nameCompletion sv = map fst m"
    if "getSpecSlugs (specManager sv) = [s]" "loadDocument sv s = (Inr doc, evs)"
      "components doc = Some [(t, m)]" for s doc evs t m
    using that by (simp add: nameCompletion_def getValidatedComponentMap_def)
  have c: "nameCompletion sv = []"
    if "getSpecSlugs (specManager sv) = [s]" "loadDocument sv s = (Inr doc, evs)"
      "components doc = Some cs" "length cs \<noteq> 1" for s doc evs cs
    using that by (cases cs; cases "tl cs") (auto simp: nameCompletion_def)
  have d: "nameCompletion sv = []"
    if "getSpecSlugs (specManager sv) = [s]" "loadDocument sv s = (Inr doc, evs)"
      "components doc = None" for s doc evs
    using that by (simp add: nameCompletion_def)
  have e: "nameCompletion sv = []"
    if "getSpecSlugs (specManager sv) = [s]" "loadDocument sv s = (Inl e, evs)" for s e evs
    using that by (simp add: nameCompletion_def)
  from a b c d e show ?thesis by blast
qed

theorem name_completion_single_key_witness:
  "getSpecSlugs (specManager (servicesFor schemasOnlySpec)) = [js ''test-api'']
   \<and> loadDocument (servicesFor schemasOnlySpec) (js ''test-api'')
       = (Inr schemasOnlySpec, sampleEvents schemasOnlySpec)
   \<and> nameCompletion (servicesFor schemasOnlySpec) = [js ''User'', js ''Error'']
   \<and> getSpecSlugs (specManager sampleServices) = [js ''test-api'']
   \<and> length (the (components sampleSpec)) \<noteq> 1
   \<and> nameCompletion sampleServices = []"
proof -
  have s: "getSpecSlugs (specManager (servicesFor schemasOnlySpec)) = [js ''test-api'']"
    by code_simp
  have l: "loadDocument (servicesFor schemasOnlySpec) (js ''test-api'')
       = (Inr schemasOnlySpec, sampleEvents schemasOnlySpec)"
    by code_simp
  have c: "components schemasOnlySpec
      = Some [(js ''schemas'', [(js ''User'', JObj [(js ''type'', JStr (js ''object''))]),
                                 (js ''Error'', JObj [(js ''type'', JStr (js ''object''))])])]"
    by (simp add: schemasOnlySpec_def)
  have s2: "getSpecSlugs (specManager sampleServices) = [js ''test-api'']" by code_simp
  have c2: "components sampleSpec
      = Some [(js ''schemas'', [(js ''User'', JObj [(js ''type'', JStr (js ''object''))])]),
              (js ''examples'', [])]"
    by (simp add: sampleSpec_def)
  from name_completion_single_key[of "servicesFor schemasOnlySpec"] s l c
  have n1: "nameCompletion (servicesFor schemasOnlySpec) = [js ''User'', js ''Error'']"
    by fastforce
  from name_completion_single_key[of sampleServices] s2 sample_loadDocument c2
  have n2: "nameCompletion sampleServices = []"
    by fastforce
  from s l n1 s2 n2 c2 show ?thesis by simp
qed

end
